theory Spec2Isabelle
  imports Main "HOL-Library.Word"
begin

unbundle bit_operations_syntax

section \<open>C strings and the libc functions that bg\_setenv.c calls\<close>

text \<open>
  A C string is modelled by its content, a \<^typ>\<open>string\<close> without the terminating
  zero byte (an argv string never holds one).  Where the program copies or scans a
  buffer, the buffer is the byte list with its terminator: \<open>cbuf s\<close>.  A pointer that
  may be NULL is an \<open>option\<close>.
\<close>

type_synonym bytes = "char list"

definition NUL :: char where
  "NUL = CHR 0x00"

definition cbuf :: "string \<Rightarrow> bytes" where
  "cbuf s = s @ [NUL]"

definition strlen :: "bytes \<Rightarrow> nat" where
  "strlen b = length (takeWhile (\<lambda>c. c \<noteq> NUL) b)"

text \<open>
  \<open>strncmp\<close> and \<open>strncasecmp\<close> on terminated buffers: at most \<open>n\<close> positions are
  compared, and the comparison stops after a terminator.  Only terminated buffers are
  ever passed, so the last equation (a buffer that ended without terminator) is never
  reached from the program.
\<close>

fun strncmp :: "bytes \<Rightarrow> bytes \<Rightarrow> nat \<Rightarrow> int" where
  "strncmp s1 s2 0 = 0"
| "strncmp (c1 # s1) (c2 # s2) (Suc n) =
     (if c1 \<noteq> c2 then int (of_char c1) - int (of_char c2)
      else if c1 = NUL then 0
      else strncmp s1 s2 n)"
| "strncmp s1 s2 (Suc n) = 0"

definition tolower :: "char \<Rightarrow> char" where
  "tolower c =
     (case map_of (zip ''ABCDEFGHIJKLMNOPQRSTUVWXYZ'' ''abcdefghijklmnopqrstuvwxyz'') c of
        Some l \<Rightarrow> l
      | None \<Rightarrow> c)"

fun strncasecmp :: "bytes \<Rightarrow> bytes \<Rightarrow> nat \<Rightarrow> int" where
  "strncasecmp s1 s2 0 = 0"
| "strncasecmp (c1 # s1) (c2 # s2) (Suc n) =
     (if tolower c1 \<noteq> tolower c2 then int (of_char (tolower c1)) - int (of_char (tolower c2))
      else if c1 = NUL then 0
      else strncasecmp s1 s2 n)"
| "strncasecmp s1 s2 (Suc n) = 0"

definition isspace :: "char \<Rightarrow> bool" where
  "isspace c = (c \<in> set [CHR '' '', CHR 0x09, CHR 0x0A, CHR 0x0B, CHR 0x0C, CHR 0x0D])"

definition isdigit :: "char \<Rightarrow> bool" where
  "isdigit c = (c \<in> set ''0123456789'')"

definition digit_val :: "char \<Rightarrow> int" where
  "digit_val c = int (of_char c) - 48"

definition decimal :: "string \<Rightarrow> int" where
  "decimal ds = foldl (\<lambda>a c. 10 * a + digit_val c) 0 ds"

text \<open>The limits of \<open>limits.h\<close> and the error numbers of \<open>errno.h\<close> on Linux/LP64,
  the platform the tool is built for: \<open>long\<close> has 64 bits, \<open>int\<close> has 32.\<close>

definition LONG_MAX :: int where "LONG_MAX = 2 ^ 63 - 1"
definition LONG_MIN :: int where "LONG_MIN = - (2 ^ 63)"
definition INT_MAX :: int where "INT_MAX = 2 ^ 31 - 1"
definition INT_MIN :: int where "INT_MIN = - (2 ^ 31)"

type_synonym error_t = int

definition ENOMEM :: error_t where "ENOMEM = 12"
definition EINVAL :: error_t where "EINVAL = 22"
definition ERANGE :: error_t where "ERANGE = 34"

text \<open>
  \<open>strtol(arg, &tmp, 10)\<close> called with \<open>errno = 0\<close>: white space is skipped, an optional
  sign is read, then the longest run of decimal digits.  The result is the value, the
  number of characters consumed (\<open>tmp - arg\<close>; 0 means \<open>tmp == arg\<close>, no conversion) and
  \<open>errno\<close> after the call.  A value outside \<open>long\<close> is clamped and sets \<open>ERANGE\<close>.
\<close>

definition strtol :: "string \<Rightarrow> int \<times> nat \<times> error_t" where
  "strtol arg =
     (let ws = takeWhile isspace arg;
          r = dropWhile isspace arg;
          neg = (r \<noteq> [] \<and> hd r = CHR ''-'');
          signed = (r \<noteq> [] \<and> (hd r = CHR ''-'' \<or> hd r = CHR ''+''));
          r1 = (if signed then tl r else r);
          ds = takeWhile isdigit r1;
          v = (if neg then - decimal ds else decimal ds);
          used = length ws + (if signed then 1 else 0) + length ds
      in if ds = [] then (0, 0, 0)
         else if v > LONG_MAX then (LONG_MAX, used, ERANGE)
         else if v < LONG_MIN then (LONG_MIN, used, ERANGE)
         else (v, used, 0))"

text \<open>
  \<open>strtok(s, "=")\<close> and the following \<open>strtok(NULL, "=")\<close>: leading delimiters are
  skipped; with nothing left the token is NULL; otherwise the token runs to the next
  delimiter, and the scan resumes after that delimiter.  The result is the token and
  the text the next call resumes from.
\<close>

definition strtok :: "string \<Rightarrow> char \<Rightarrow> string option \<times> string" where
  "strtok s d =
     (let s1 = dropWhile (\<lambda>c. c = d) s in
      if s1 = [] then (None, [])
      else (Some (takeWhile (\<lambda>c. c \<noteq> d) s1), tl (dropWhile (\<lambda>c. c \<noteq> d) s1)))"

section \<open>Macros of the absent headers\<close>

text \<open>
  \<open>env_api.h\<close>, \<open>ebgenv.h\<close>, \<open>uservars.h\<close> and \<open>env_config_file.h\<close> are not among the
  sources.  The macros of theirs that bg\_setenv.c uses are parameters of the model:
  every function that reads one takes the record \<open>M\<close>.
\<close>

record macros =
  USTATE_MIN :: int
  USTATE_MAX :: int
  USTATE_UNKNOWN :: int
  ENV_NUM_CONFIG_PARTS :: int
  ENV_STRING_LENGTH :: nat
  USERVAR_TYPE_DEFAULT :: "64 word"
  USERVAR_TYPE_DELETED :: "64 word"
  USERVAR_TYPE_STRING_ASCII :: "64 word"
  FAT_ENV_FILENAME :: string

section \<open>Update states and their names\<close>

definition ustatemap :: "string list" where
  "ustatemap = [''OK'', ''INSTALLED'', ''TESTING'', ''FAILED'', ''UNKNOWN'']"

text \<open>
  The loop of \<open>str2ustate\<close>, from index \<open>i\<close> on.  The index is a \<open>uint8_t\<close>.  Reading
  \<open>ustatemap[i]\<close> outside the table is undefined behaviour: the result \<open>None\<close>.
\<close>

function str2ustate_loop :: "macros \<Rightarrow> string \<Rightarrow> nat \<Rightarrow> 8 word option" where
  "str2ustate_loop M str i =
     (if int i < USTATE_MAX M then
        (if i < length ustatemap then
           (if strncasecmp (cbuf str) (cbuf (ustatemap ! i)) (strlen (cbuf (ustatemap ! i))) = 0
            then Some (of_nat i)
            else str2ustate_loop M str ((i + 1) mod 256))
         else None)
      else Some (word_of_int (USTATE_UNKNOWN M)))"
  by pat_completeness auto
termination
  by (relation "measure (\<lambda>(M, str, i). length ustatemap - i)") (auto simp: ustatemap_def)

definition str2ustate :: "macros \<Rightarrow> string option \<Rightarrow> 8 word option" where
  "str2ustate M str =
     (case str of
        None \<Rightarrow> Some (word_of_int (USTATE_UNKNOWN M))
      | Some s \<Rightarrow> str2ustate_loop M s (nat (USTATE_MIN M mod 256)))"

definition ustate2str :: "macros \<Rightarrow> 8 word \<Rightarrow> string option" where
  "ustate2str M ustate =
     (let u = (if uint ustate > USTATE_MAX M then word_of_int (USTATE_MAX M) else ustate)
      in if unat u < length ustatemap then Some (ustatemap ! unat u) else None)"

section \<open>Integer arguments\<close>

text \<open>\<open>parse_int\<close> returns its value and leaves \<open>errno\<close>: the pair of both.\<close>

definition parse_int :: "string \<Rightarrow> int \<times> error_t" where
  "parse_int arg =
     (case strtol arg of
        (i, used, errno) \<Rightarrow>
          if errno = ERANGE \<or> (errno \<noteq> 0 \<and> i = 0) \<or>
             used = 0 \<or> used < length arg \<or>
             i < INT_MIN \<or> i > INT_MAX
          then (- 1, EINVAL)
          else (i, 0))"

text \<open>\<open>asprintf(&tmp, "%u", i)\<close>: the decimal text of an unsigned number.\<close>

function utoa :: "nat \<Rightarrow> string" where
  "utoa n = (if n < 10 then [''0123456789'' ! n] else utoa (n div 10) @ [''0123456789'' ! (n mod 10)])"
  by pat_completeness auto
termination
  by (relation "measure (\<lambda>n. n)") auto

definition fmt_u :: "int \<Rightarrow> string" where
  "fmt_u i = utoa (nat (i mod 2 ^ 32))"

section \<open>The environment record and its handle\<close>

text \<open>
  Modelled from the spec: \<open>BG_ENVDATA\<close> and \<open>BGENV\<close> are declared in \<open>env_api.h\<close>,
  which is not among the sources.  The fields carry the names bg\_setenv.c reads them
  by and the types of section 3 of the specification; a text field is the list of its
  UTF-16 code units, the user-variable area the list of its entries in encoding order
  (key, type flags, value bytes).  The checksum is the last field: the fields before it
  are a record of their own, \<open>BG_ENVDATA_fields\<close>.
\<close>

record uservar =
  uv_key :: string
  uv_type :: "64 word"
  uv_value :: bytes

record BG_ENVDATA_fields =
  kernelfile :: "16 word list"
  kernelparams :: "16 word list"
  in_progress :: bool
  ustate :: "16 word"
  watchdog_timeout_sec :: "32 word"
  revision :: "32 word"
  userdata :: "uservar list"

record BG_ENVDATA = BG_ENVDATA_fields +
  crc32 :: "32 word"

text \<open>A handle: its descriptor and the pointer \<open>data\<close> to the record, which may be NULL.\<close>

record BGENV =
  desc :: nat
  data :: "BG_ENVDATA option"

text \<open>\<open>memset(&data, 0, sizeof(BG_ENVDATA))\<close> and \<open>memset(&env, 0, sizeof(BGENV))\<close>.\<close>

definition zero_BG_ENVDATA :: BG_ENVDATA where
  "zero_BG_ENVDATA =
     \<lparr>kernelfile = [], kernelparams = [], in_progress = False, ustate = 0,
      watchdog_timeout_sec = 0, revision = 0, userdata = [], crc32 = 0\<rparr>"

section \<open>The journal\<close>

datatype BGENV_TASK = ENV_TASK_SET | ENV_TASK_DEL

record env_action =
  key :: "string option"
  type :: "64 word"
  payload :: "bytes option"
  task :: BGENV_TASK

text \<open>
  The field \<open>data\<close> of \<open>struct env_action\<close> is \<open>payload\<close> here (\<open>data\<close> names the
  field of \<open>BGENV\<close>).

  What the program writes to stderr, one constructor for each message, and the calls
  it makes to its collaborators (libebgenv, zlib and the file system), in the order it
  makes them.  Output to stdout is not modelled.
\<close>

datatype diag =
    Invalid_value_for_ustate bytes
  | Error_setting_global_state int
  | Warning_f_directory_deprecated
  | Invalid_number_specified_for_p
  | Selected_partition_out_of_range
  | Kernel_filename_too_long
  | Kernel_arguments_too_long
  | Invalid_state_specified
  | Invalid_ustate_value_specified
  | Invalid_value_specified
  | Invalid_value_specified_0_1
  | Invalid_revision_specified
  | Invalid_watchdog_timeout_specified
  | Error_creating_journal error_t
  | Could_not_read_environment_for_index int
  | Error_writing_to_output_file
  | Error_closing_output_file
  | Error_opening_output_file string
  | Both_automatic_and_manual_selection
  | Error_initializing_FAT_environment
  | Failed_to_retrieve_latest_environment
  | Failed_to_retrieve_oldest_environment
  | Invalid_environment_data_pointer
  | Failed_to_retrieve_environment_by_index
  | Error_storing_environment

datatype call =
    Call_stat string
  | Call_bgenv_be_verbose bool
  | Call_bgenv_init
  | Call_bgenv_open_latest
  | Call_bgenv_open_oldest
  | Call_bgenv_open_by_index int
  | Call_bgenv_close "BGENV option"
  | Call_bgenv_write BGENV
  | Call_bgenv_finalize
  | Call_bgenv_set BGENV "string option" "64 word" bytes nat
  | Call_ebg_env_setglobalstate BGENV "16 word"
  | Call_open_config_file string
  | Call_fread
  | Call_close_config_file
  | Call_fopen string
  | Call_fwrite BG_ENVDATA
  | Call_fclose

text \<open>
  The collaborators are not in bg\_setenv.c.  Each is a parameter: its answer as a
  function of its arguments and of the calls made so far (the state of the library and
  of the disk is whatever those calls left).  \<open>layout\<close> gives the first
  \<open>sizeof(BG_ENVDATA) - sizeof(crc32)\<close> bytes of a record in memory, the bytes of the
  fields before the checksum.
\<close>

record lib =
  stat_isdir :: "call list \<Rightarrow> string \<Rightarrow> bool"
  bgenv_init :: "call list \<Rightarrow> bool"
  bgenv_open_latest :: "call list \<Rightarrow> BGENV option"
  bgenv_open_oldest :: "call list \<Rightarrow> BGENV option"
  bgenv_open_by_index :: "call list \<Rightarrow> int \<Rightarrow> BGENV option"
  bgenv_write :: "call list \<Rightarrow> BGENV \<Rightarrow> bool"
  bgenv_set :: "call list \<Rightarrow> BGENV \<Rightarrow> string option \<Rightarrow> 64 word \<Rightarrow> bytes \<Rightarrow> nat \<Rightarrow> BGENV"
  ebg_env_setglobalstate :: "call list \<Rightarrow> BGENV \<Rightarrow> 16 word \<Rightarrow> int \<times> BGENV"
  zlib_crc32 :: "32 word \<Rightarrow> 8 word list \<Rightarrow> 32 word"
  layout :: "BG_ENVDATA_fields \<Rightarrow> 8 word list"
  open_config_file :: "call list \<Rightarrow> string \<Rightarrow> bool"
  fread_env :: "call list \<Rightarrow> BG_ENVDATA option"
  fopen_wb :: "call list \<Rightarrow> string \<Rightarrow> bool"
  fwrite_env :: "call list \<Rightarrow> BG_ENVDATA \<Rightarrow> bool"
  fclose_ok :: "call list \<Rightarrow> bool"

text \<open>
  The state of the process: the queue \<open>head\<close> (the global \<open>STAILQ\<close>), stderr, the
  collaborator calls, and \<open>mem\<close>, the outcomes of the allocations still to come
  (\<open>False\<close>: the allocation fails; once the list is used up every allocation succeeds).
\<close>

record prog =
  head :: "env_action list"
  err :: "diag list"
  calls :: "call list"
  mem :: "bool list"

definition report :: "diag \<Rightarrow> prog \<Rightarrow> prog" where
  "report m st = st\<lparr>err := err st @ [m]\<rparr>"

definition called :: "call \<Rightarrow> prog \<Rightarrow> prog" where
  "called c st = st\<lparr>calls := calls st @ [c]\<rparr>"

definition alloc :: "prog \<Rightarrow> bool \<times> prog" where
  "alloc st = (case mem st of [] \<Rightarrow> (True, st) | ok # rest \<Rightarrow> (ok, st\<lparr>mem := rest\<rparr>))"

text \<open>
  \<open>journal_add_action\<close>: \<open>calloc\<close>, then \<open>asprintf\<close> of the key (when there is one), then
  \<open>malloc\<close> and \<open>memcpy\<close> of \<open>datalen\<close> bytes (when there are data and a length), then
  \<open>STAILQ_INSERT_TAIL\<close>.  Every caller passes the length of the whole buffer.
\<close>

definition journal_add_action ::
  "BGENV_TASK \<Rightarrow> string option \<Rightarrow> 64 word \<Rightarrow> bytes option \<Rightarrow> nat \<Rightarrow> prog \<Rightarrow> error_t \<times> prog" where
  "journal_add_action tsk k ty d datalen st =
     (case alloc st of (ok1, st1) \<Rightarrow>
        if \<not> ok1 then (ENOMEM, st1)
        else
          (case (if k \<noteq> None then alloc st1 else (True, st1)) of (ok2, st2) \<Rightarrow>
             if \<not> ok2 then (ENOMEM, st2)
             else
               (case d of
                  Some buf \<Rightarrow>
                    if datalen \<noteq> 0 then
                      (case alloc st2 of (ok3, st3) \<Rightarrow>
                         if \<not> ok3 then (ENOMEM, st3)
                         else (0, st3\<lparr>head := head st3 @
                                 [\<lparr>key = k, type = ty, payload = Some (take datalen buf), task = tsk\<rparr>]\<rparr>))
                    else (0, st2\<lparr>head := head st2 @
                            [\<lparr>key = k, type = ty, payload = None, task = tsk\<rparr>]\<rparr>)
                | None \<Rightarrow> (0, st2\<lparr>head := head st2 @
                            [\<lparr>key = k, type = ty, payload = None, task = tsk\<rparr>]\<rparr>))))"

definition set_uservars :: "macros \<Rightarrow> string \<Rightarrow> prog \<Rightarrow> error_t \<times> prog" where
  "set_uservars M arg st =
     (case strtok arg CHR ''='' of
        (None, rest) \<Rightarrow> (0, st)
      | (Some k, rest) \<Rightarrow>
          (case strtok rest CHR ''='' of
             (None, rest') \<Rightarrow>
               journal_add_action ENV_TASK_DEL (Some k)
                 (USERVAR_TYPE_DEFAULT M OR USERVAR_TYPE_DELETED M) None 0 st
           | (Some v, rest') \<Rightarrow>
               journal_add_action ENV_TASK_SET (Some k)
                 (USERVAR_TYPE_DEFAULT M OR USERVAR_TYPE_STRING_ASCII M)
                 (Some (cbuf v)) (strlen (cbuf v) + 1) st))"

text \<open>
  \<open>journal_process_action\<close>.  \<open>None\<close> is a NULL pointer handed to \<open>strncmp\<close>, \<open>strtol\<close>
  or \<open>strlen\<close>.  \<open>t\<close> is an \<open>unsigned long\<close>, \<open>ustate\<close> a \<open>uint16_t\<close>; the return code of
  \<open>bgenv_set\<close> is not looked at.
\<close>

definition journal_process_action ::
  "lib \<Rightarrow> BGENV \<Rightarrow> env_action \<Rightarrow> prog \<Rightarrow> (BGENV \<times> prog) option" where
  "journal_process_action L env action st =
     (case task action of
        ENV_TASK_SET \<Rightarrow>
          (case key action of
             None \<Rightarrow> None
           | Some k \<Rightarrow>
               if strncmp (cbuf k) (cbuf ''ustate'') (strlen (cbuf ''ustate'') + 1) = 0 then
                 (case payload action of
                    None \<Rightarrow> None
                  | Some arg \<Rightarrow>
                      (case strtol (takeWhile (\<lambda>c. c \<noteq> NUL) arg) of
                         (v, used, errno) \<Rightarrow>
                           let t = (word_of_int v :: 64 word) in
                           if (errno = ERANGE \<and> (t = word_of_int LONG_MAX \<or> t = word_of_int LONG_MIN)) \<or>
                              (errno \<noteq> 0 \<and> t = 0) \<or> used = 0
                           then Some (env, report (Invalid_value_for_ustate arg) st)
                           else
                             let u = (ucast t :: 16 word);
                                 st1 = called (Call_ebg_env_setglobalstate env u) st
                             in (case ebg_env_setglobalstate L (calls st) env u of
                                   (ret, env1) \<Rightarrow>
                                     Some (env1, if ret \<noteq> 0
                                                 then report (Error_setting_global_state ret) st1
                                                 else st1))))
               else
                 (case payload action of
                    None \<Rightarrow> None
                  | Some buf \<Rightarrow>
                      Some (bgenv_set L (calls st) env (Some k) (type action) buf (strlen buf + 1),
                            called (Call_bgenv_set env (Some k) (type action) buf (strlen buf + 1)) st)))
      | ENV_TASK_DEL \<Rightarrow>
          Some (bgenv_set L (calls st) env (key action) (type action) (cbuf []) 1,
                called (Call_bgenv_set env (key action) (type action) (cbuf []) 1) st))"

text \<open>
  The loop of \<open>update_environment\<close>: while the queue is not empty, process its first
  action, remove it from the queue and free it.
\<close>

function journal_loop :: "lib \<Rightarrow> BGENV \<Rightarrow> prog \<Rightarrow> (BGENV \<times> prog) option" where
  "journal_loop L env st =
     (case head st of
        [] \<Rightarrow> Some (env, st)
      | action # rest \<Rightarrow>
          (case journal_process_action L env action st of
             None \<Rightarrow> None
           | Some (env1, st1) \<Rightarrow> journal_loop L env1 (st1\<lparr>head := tl (head st1)\<rparr>)))"
  by pat_completeness auto
termination
  by (relation "measure (\<lambda>(L, env, st). length (head st))")
     (auto simp: journal_process_action_def report_def called_def Let_def
           split: BGENV_TASK.splits option.splits if_splits prod.splits)

text \<open>
  \<open>update_environment\<close>: the loop, then the checksum over the bytes before the field
  \<open>crc32\<close>.  \<open>None\<close>: \<open>env->data\<close> is NULL where the checksum is stored.
\<close>

definition update_environment :: "lib \<Rightarrow> BGENV \<Rightarrow> prog \<Rightarrow> (BGENV \<times> prog) option" where
  "update_environment L env st =
     (case journal_loop L env st of
        None \<Rightarrow> None
      | Some (env1, st1) \<Rightarrow>
          (case data env1 of
             None \<Rightarrow> None
           | Some d \<Rightarrow>
               Some (env1\<lparr>data := Some (d\<lparr>crc32 :=
                       zlib_crc32 L 0 (layout L (BG_ENVDATA_fields.truncate d))\<rparr>)\<rparr>, st1)))"

section \<open>Option parsing\<close>

record arguments_common =
  envfilepath :: "string option"
  verbosity :: bool
  which_part :: int
  part_specified :: bool

record arguments_setenv =
  common :: arguments_common
  auto_update :: bool
  preserve_env :: bool

text \<open>
  What a parser call, and then the parse of the whole command line, ends in: it returns
  an error code (0 for success), or the process exits (\<open>exit\<close>, \<open>argp_usage\<close>), or
  it runs into undefined behaviour (\<open>Crash\<close>).
\<close>

datatype 'a res = Return error_t 'a | Exit int 'a | Crash

definition opt :: "char \<Rightarrow> int" where
  "opt c = of_char c"

definition ARGP_KEY_ARG :: int where "ARGP_KEY_ARG = 0"
definition ARGP_ERR_UNKNOWN :: error_t where "ARGP_ERR_UNKNOWN = 7"
definition argp_err_exit_status :: int where "argp_err_exit_status = 64"

definition parse_common_opt ::
  "macros \<Rightarrow> lib \<Rightarrow> int \<Rightarrow> string \<Rightarrow> bool \<Rightarrow> arguments_common \<Rightarrow> prog
    \<Rightarrow> (arguments_common \<times> prog) res" where
  "parse_common_opt M L k arg compat_mode a st =
     (if k = opt CHR ''f'' then
        (let a0 = a\<lparr>envfilepath := None\<rparr>;
             st1 = (if compat_mode then called (Call_stat arg) st else st)
         in if compat_mode \<and> stat_isdir L (calls st) arg then
              (case alloc (report Warning_f_directory_deprecated st1) of (ok, st2) \<Rightarrow>
                 if \<not> ok then Return ENOMEM (a0, st2)
                 else Return 0 (a0\<lparr>envfilepath := Some (arg @ ''/'' @ FAT_ENV_FILENAME M)\<rparr>, st2))
            else
              (case alloc st1 of (ok, st2) \<Rightarrow>
                 if \<not> ok then Return ENOMEM (a0, st2)
                 else Return 0 (a0\<lparr>envfilepath := Some arg\<rparr>, st2)))
      else if k = opt CHR ''p'' then
        (case parse_int arg of (i, errno) \<Rightarrow>
           if errno \<noteq> 0 then Return 1 (a, report Invalid_number_specified_for_p st)
           else if i \<ge> 0 \<and> i < ENV_NUM_CONFIG_PARTS M then
             Return 0 (a\<lparr>which_part := i, part_specified := True\<rparr>, st)
           else Return 1 (a, report Selected_partition_out_of_range st))
      else if k = opt CHR ''v'' then
        Return 0 (a\<lparr>verbosity := True\<rparr>, called (Call_bgenv_be_verbose True) st)
      else if k = opt CHR ''V'' then Exit 0 (a, st)
      else Return ARGP_ERR_UNKNOWN (a, st))"

text \<open>The end of \<open>parse_setenv_opt\<close>: \<open>if (e) fprintf(stderr, ...); return e;\<close>\<close>

definition journal_created :: "arguments_setenv \<Rightarrow> error_t \<times> prog \<Rightarrow> (arguments_setenv \<times> prog) res" where
  "journal_created a r =
     (case r of (e, st) \<Rightarrow>
        Return e (a, if e \<noteq> 0 then report (Error_creating_journal e) st else st))"

definition parse_setenv_opt ::
  "macros \<Rightarrow> lib \<Rightarrow> int \<Rightarrow> string \<Rightarrow> arguments_setenv \<Rightarrow> prog \<Rightarrow> (arguments_setenv \<times> prog) res" where
  "parse_setenv_opt M L k arg a st =
     (if k = opt CHR ''k'' then
        (if strlen (cbuf arg) > ENV_STRING_LENGTH M
         then Return 1 (a, report Kernel_filename_too_long st)
         else journal_created a
                (journal_add_action ENV_TASK_SET (Some ''kernelfile'') 0
                   (Some (cbuf arg)) (strlen (cbuf arg) + 1) st))
      else if k = opt CHR ''a'' then
        (if strlen (cbuf arg) > ENV_STRING_LENGTH M
         then Return 1 (a, report Kernel_arguments_too_long st)
         else journal_created a
                (journal_add_action ENV_TASK_SET (Some ''kernelparams'') 0
                   (Some (cbuf arg)) (strlen (cbuf arg) + 1) st))
      else if k = opt CHR ''s'' then
        (case parse_int arg of (i0, errno) \<Rightarrow>
           (case (if errno \<noteq> 0 then map_option uint (str2ustate M (Some arg)) else Some i0) of
              None \<Rightarrow> Crash
            | Some i \<Rightarrow>
                if errno \<noteq> 0 \<and> i = USTATE_UNKNOWN M
                then Return 1 (a, report Invalid_state_specified st)
                else if i < 0 \<or> i > 3
                then Return 1 (a, report Invalid_ustate_value_specified st)
                else
                  (case alloc st of (ok, st1) \<Rightarrow>
                     if \<not> ok then Return ENOMEM (a, st1)
                     else journal_created a
                            (journal_add_action ENV_TASK_SET (Some ''ustate'') 0
                               (Some (cbuf (fmt_u i))) (strlen (cbuf (fmt_u i)) + 1) st1))))
      else if k = opt CHR ''i'' then
        (case parse_int arg of (i, errno) \<Rightarrow>
           if errno \<noteq> 0 then Return 1 (a, report Invalid_value_specified st)
           else if i < 0 \<or> i > 1 then Return 1 (a, report Invalid_value_specified_0_1 st)
           else
             (case alloc st of (ok, st1) \<Rightarrow>
                if \<not> ok then Return ENOMEM (a, st1)
                else journal_created a
                       (journal_add_action ENV_TASK_SET (Some ''in_progress'') 0
                          (Some (cbuf (fmt_u i))) (strlen (cbuf (fmt_u i)) + 1) st1)))
      else if k = opt CHR ''r'' then
        (case parse_int arg of (i, errno) \<Rightarrow>
           if errno \<noteq> 0 then Return 1 (a, report Invalid_revision_specified st)
           else journal_created a
                  (journal_add_action ENV_TASK_SET (Some ''revision'') 0
                     (Some (cbuf arg)) (strlen (cbuf arg) + 1) st))
      else if k = opt CHR ''w'' then
        (case parse_int arg of (i, errno) \<Rightarrow>
           if errno \<noteq> 0 \<or> i < 0 then Return 1 (a, report Invalid_watchdog_timeout_specified st)
           else journal_created a
                  (journal_add_action ENV_TASK_SET (Some ''watchdog_timeout_sec'') 0
                     (Some (cbuf arg)) (strlen (cbuf arg) + 1) st))
      else if k = opt CHR ''c'' then
        journal_created a
          (journal_add_action ENV_TASK_SET (Some ''ustate'') 0 (Some (cbuf ''0'')) 2 st)
      else if k = opt CHR ''u'' then journal_created (a\<lparr>auto_update := True\<rparr>) (0, st)
      else if k = opt CHR ''x'' then journal_created a (set_uservars M arg st)
      else if k = opt CHR ''P'' then journal_created (a\<lparr>preserve_env := True\<rparr>) (0, st)
      else if k = ARGP_KEY_ARG then Exit argp_err_exit_status (a, st)
      else
        (case parse_common_opt M L k arg True (common a) st of
           Return e (c, st1) \<Rightarrow> Return e (a\<lparr>common := c\<rparr>, st1)
         | Exit code (c, st1) \<Rightarrow> Exit code (a\<lparr>common := c\<rparr>, st1)
         | Crash \<Rightarrow> Crash))"

text \<open>
  \<open>argp_parse\<close> (glibc) with flags 0, on the options in the order of the command line,
  each a key with its argument: the parser is called for each; the first error code it
  returns ends the parse and is the result; a key the parser does not know ends the
  process with a usage error.
\<close>

fun argp_parse ::
  "(int \<Rightarrow> string \<Rightarrow> 'a \<Rightarrow> prog \<Rightarrow> ('a \<times> prog) res) \<Rightarrow> (int \<times> string) list \<Rightarrow> 'a \<Rightarrow> prog
    \<Rightarrow> ('a \<times> prog) res" where
  "argp_parse parser [] a st = Return 0 (a, st)"
| "argp_parse parser ((k, arg) # os) a st =
     (case parser k arg a st of
        Return e (a1, st1) \<Rightarrow>
          if e = 0 then argp_parse parser os a1 st1
          else if e = ARGP_ERR_UNKNOWN then Exit argp_err_exit_status (a1, st1)
          else Return e (a1, st1)
      | Exit code x \<Rightarrow> Exit code x
      | Crash \<Rightarrow> Crash)"

section \<open>The session\<close>

text \<open>
  \<open>dump_envs\<close> (only its calls; \<open>dump_env\<close> reads through the pointer \<open>env->data\<close>, so
  \<open>None\<close> when that is NULL), from partition \<open>i\<close> on.
\<close>

function dump_envs_from :: "macros \<Rightarrow> lib \<Rightarrow> int \<Rightarrow> prog \<Rightarrow> prog option" where
  "dump_envs_from M L i st =
     (if i < ENV_NUM_CONFIG_PARTS M then
        (let st1 = called (Call_bgenv_open_by_index i) st in
         case bgenv_open_by_index L (calls st) i of
           None \<Rightarrow> Some (report (Could_not_read_environment_for_index i) st1)
         | Some env \<Rightarrow>
             (case data env of
                None \<Rightarrow> None
              | Some d \<Rightarrow> dump_envs_from M L (i + 1) (called (Call_bgenv_close (Some env)) st1)))
      else Some st)"
  by pat_completeness auto
termination
  by (relation "measure (\<lambda>(M, L, i, st). nat (ENV_NUM_CONFIG_PARTS M - i))") auto

definition dump_envs :: "macros \<Rightarrow> lib \<Rightarrow> prog \<Rightarrow> prog option" where
  "dump_envs M L st = dump_envs_from M L 0 st"

text \<open>\<open>get_env\<close>: \<open>None\<close> is the result \<open>false\<close>, \<open>Some d\<close> is \<open>true\<close> with \<open>d\<close> read into \<open>*data\<close>.\<close>

definition get_env :: "lib \<Rightarrow> string \<Rightarrow> prog \<Rightarrow> BG_ENVDATA option \<times> prog" where
  "get_env L path st =
     (let st1 = called (Call_open_config_file path) st in
      if \<not> open_config_file L (calls st) path then (None, st1)
      else
        (let st2 = called Call_fread st1;
             r = fread_env L (calls st1)
         in (r, called Call_close_config_file st2)))"

definition dumpenv_to_file :: "lib \<Rightarrow> string \<Rightarrow> bool \<Rightarrow> bool \<Rightarrow> prog \<Rightarrow> (int \<times> prog) option" where
  "dumpenv_to_file L path verbose preserve st =
     (case (if preserve then get_env L path st else (Some zero_BG_ENVDATA, st)) of
        (None, st1) \<Rightarrow> Some (1, st1)
      | (Some d0, st1) \<Rightarrow>
          (case update_environment L \<lparr>desc = 0, data = Some d0\<rparr> st1 of
             None \<Rightarrow> None
           | Some (env1, st2) \<Rightarrow>
               (case data env1 of
                  None \<Rightarrow> None
                | Some d \<Rightarrow>
                    (let st3 = called (Call_fopen path) st2 in
                     if fopen_wb L (calls st2) path then
                       (let wr = fwrite_env L (calls st3) d;
                            st4 = called (Call_fwrite d) st3;
                            st5 = (if wr then st4 else report Error_writing_to_output_file st4);
                            cl = fclose_ok L (calls st5);
                            st6 = called Call_fclose st5;
                            st7 = (if cl then st6 else report Error_closing_output_file st6)
                        in Some (if wr \<and> cl then 0 else 1, st7))
                     else Some (1, report (Error_opening_output_file path) st3)))))"

text \<open>The label \<open>cleanup\<close> of \<open>bg_setenv\<close>: \<open>bgenv_close(env_new); bgenv_finalize();\<close>\<close>

definition cleanup :: "BGENV option \<Rightarrow> prog \<Rightarrow> prog" where
  "cleanup env_new st = called Call_bgenv_finalize (called (Call_bgenv_close env_new) st)"

text \<open>From \<open>update_environment(env_new, ...)\<close> to the end of \<open>bg_setenv\<close>.\<close>

definition store_environment :: "lib \<Rightarrow> BGENV \<Rightarrow> prog \<Rightarrow> (int \<times> prog) option" where
  "store_environment L env_new st =
     (case update_environment L env_new st of
        None \<Rightarrow> None
      | Some (env1, st1) \<Rightarrow>
          (let ok = bgenv_write L (calls st1) env1;
               st2 = called (Call_bgenv_write env1) st1;
               st3 = (if ok then st2 else report Error_storing_environment st2)
           in Some (if ok then 0 else 1, cleanup (Some env1) st3)))"

text \<open>
  \<open>bg_setenv\<close> after the arguments are parsed, not in file mode.  The two handles of
  the automatic update are separate objects: \<open>memcpy\<close> makes the record of \<open>env_new\<close> a
  copy of the record of \<open>env_current\<close>, then the revision is assigned.
\<close>

definition update_slots :: "macros \<Rightarrow> lib \<Rightarrow> arguments_setenv \<Rightarrow> prog \<Rightarrow> (int \<times> prog) option" where
  "update_slots M L a st =
     (let st1 = called Call_bgenv_init st in
      if \<not> bgenv_init L (calls st) then Some (1, report Error_initializing_FAT_environment st1)
      else
        (case (if verbosity (common a) then dump_envs M L st1 else Some st1) of
           None \<Rightarrow> None
         | Some st2 \<Rightarrow>
             if auto_update a then
               (let st3 = called Call_bgenv_open_latest st2 in
                case bgenv_open_latest L (calls st2) of
                  None \<Rightarrow> Some (1, cleanup None (report Failed_to_retrieve_latest_environment st3))
                | Some env_current \<Rightarrow>
                    (let st4 = called Call_bgenv_open_oldest st3 in
                     case bgenv_open_oldest L (calls st3) of
                       None \<Rightarrow>
                         Some (1, cleanup None
                                    (called (Call_bgenv_close (Some env_current))
                                       (report Failed_to_retrieve_oldest_environment st4)))
                     | Some env_new \<Rightarrow>
                         if verbosity (common a) \<and> data env_new = None then None
                         else
                           (case (data env_current, data env_new) of
                              (Some dc, Some dn) \<Rightarrow>
                                store_environment L
                                  (env_new\<lparr>data := Some (dc\<lparr>revision := revision dc + 1\<rparr>)\<rparr>)
                                  (called (Call_bgenv_close (Some env_current)) st4)
                            | _ \<Rightarrow>
                                Some (1, cleanup (Some env_new)
                                           (called (Call_bgenv_close (Some env_current))
                                              (report Invalid_environment_data_pointer st4))))))
             else
               (let st3 = called (if part_specified (common a)
                                  then Call_bgenv_open_by_index (which_part (common a))
                                  else Call_bgenv_open_latest) st2
                in case (if part_specified (common a)
                         then bgenv_open_by_index L (calls st2) (which_part (common a))
                         else bgenv_open_latest L (calls st2)) of
                     None \<Rightarrow>
                       Some (1, cleanup None (report Failed_to_retrieve_environment_by_index st3))
                   | Some env_new \<Rightarrow> store_environment L env_new st3)))"

definition zero_arguments :: arguments_setenv where
  "zero_arguments =
     \<lparr>common = \<lparr>envfilepath = None, verbosity = False, which_part = 0, part_specified = False\<rparr>,
      auto_update = False, preserve_env = False\<rparr>"

datatype outcome = Returned int | Exited int

text \<open>
  \<open>bg_setenv(argc, argv)\<close>, the command line given as \<open>argc\<close> and its options.
  \<open>None\<close>: undefined behaviour was reached.
\<close>

definition bg_setenv ::
  "macros \<Rightarrow> lib \<Rightarrow> int \<Rightarrow> (int \<times> string) list \<Rightarrow> prog \<Rightarrow> (outcome \<times> prog) option" where
  "bg_setenv M L argc opts st =
     (if argc < 2 then Some (Returned 1, st)
      else
        (case argp_parse (parse_setenv_opt M L) opts zero_arguments (st\<lparr>head := []\<rparr>) of
           Crash \<Rightarrow> None
         | Exit code (a, st1) \<Rightarrow> Some (Exited code, st1)
         | Return e (a, st1) \<Rightarrow>
             if e \<noteq> 0 then Some (Returned e, st1)
             else if auto_update a \<and> part_specified (common a)
             then Some (Returned 1, report Both_automatic_and_manual_selection st1)
             else
               (case envfilepath (common a) of
                  Some path \<Rightarrow>
                    map_option (\<lambda>(r, st2). (Returned r, st2))
                      (dumpenv_to_file L path (verbosity (common a)) (preserve_env a) st1)
                | None \<Rightarrow>
                    map_option (\<lambda>(r, st2). (Returned r, st2)) (update_slots M L a st1))))"

section \<open>The library as the specification describes it\<close>

text \<open>
  Modelled from the spec: \<open>bgenv_set\<close> (libebgenv) is not among the sources.  Section
  4.3 of the specification: a Set on an ordinary key "writes/overwrites the
  corresponding record field or user variable with data"; a user variable that exists
  is overwritten in place, a new one is added at the end of the area.  The record
  fields are addressed by the keys bg\_setenv.c uses for them.  A text field takes the
  characters up to the terminator as UTF-16 code units, a numeric field the number the
  text denotes.
\<close>

definition str8to16 :: "bytes \<Rightarrow> 16 word list" where
  "str8to16 b = map (\<lambda>c. of_nat (of_char c)) (takeWhile (\<lambda>c. c \<noteq> NUL) b)"

fun set_uservar :: "string \<Rightarrow> 64 word \<Rightarrow> bytes \<Rightarrow> uservar list \<Rightarrow> uservar list" where
  "set_uservar k ty v [] = [\<lparr>uv_key = k, uv_type = ty, uv_value = v\<rparr>]"
| "set_uservar k ty v (u # us) =
     (if uv_key u = k then \<lparr>uv_key = k, uv_type = ty, uv_value = v\<rparr> # us
      else u # set_uservar k ty v us)"

fun get_uservar :: "string \<Rightarrow> uservar list \<Rightarrow> uservar option" where
  "get_uservar k [] = None"
| "get_uservar k (u # us) = (if uv_key u = k then Some u else get_uservar k us)"

definition field_keys :: "string list" where
  "field_keys = [''kernelfile'', ''kernelparams'', ''in_progress'', ''ustate'',
                 ''watchdog_timeout_sec'', ''revision'']"

definition spec_bgenv_set ::
  "call list \<Rightarrow> BGENV \<Rightarrow> string option \<Rightarrow> 64 word \<Rightarrow> bytes \<Rightarrow> nat \<Rightarrow> BGENV" where
  "spec_bgenv_set h env k ty buf n =
     (case data env of
        None \<Rightarrow> env
      | Some d \<Rightarrow>
          (case k of
             None \<Rightarrow> env
           | Some name \<Rightarrow>
               (let v = take n buf;
                    num = fst (strtol (takeWhile (\<lambda>c. c \<noteq> NUL) v))
                in env\<lparr>data := Some
                     (if name = ''kernelfile'' then d\<lparr>kernelfile := str8to16 v\<rparr>
                      else if name = ''kernelparams'' then d\<lparr>kernelparams := str8to16 v\<rparr>
                      else if name = ''in_progress'' then d\<lparr>in_progress := (num \<noteq> 0)\<rparr>
                      else if name = ''ustate'' then d\<lparr>ustate := word_of_int num\<rparr>
                      else if name = ''watchdog_timeout_sec''
                        then d\<lparr>watchdog_timeout_sec := word_of_int num\<rparr>
                      else if name = ''revision'' then d\<lparr>revision := word_of_int num\<rparr>
                      else d\<lparr>userdata := set_uservar name ty v (userdata d)\<rparr>)\<rparr>)))"

text \<open>
  Modelled from the spec: \<open>ebg_env_setglobalstate\<close> (libebgenv) is not among the
  sources.  Section 6: "set\_global\_state(ustate) -> Ok | Fails(reason)"; section 3: the
  valid persisted range is 0..3.  A valid state is stored in the record of the handle.
\<close>

definition spec_setglobalstate :: "call list \<Rightarrow> BGENV \<Rightarrow> 16 word \<Rightarrow> int \<times> BGENV" where
  "spec_setglobalstate h env u =
     (if u \<le> 3 then (0, env\<lparr>data := map_option (\<lambda>d. d\<lparr>ustate := u\<rparr>) (data env)\<rparr>)
      else (- EINVAL, env))"

text \<open>
  What is stored under a key, in these terms: a field of the record, or the user
  variable of that name, or nothing.
\<close>

datatype stored_value =
    Text "16 word list"
  | Flag bool
  | Num16 "16 word"
  | Num32 "32 word"
  | Var "64 word" bytes
  | Absent

definition stored :: "BG_ENVDATA \<Rightarrow> string \<Rightarrow> stored_value" where
  "stored d name =
     (if name = ''kernelfile'' then Text (kernelfile d)
      else if name = ''kernelparams'' then Text (kernelparams d)
      else if name = ''in_progress'' then Flag (in_progress d)
      else if name = ''ustate'' then Num16 (ustate d)
      else if name = ''watchdog_timeout_sec'' then Num32 (watchdog_timeout_sec d)
      else if name = ''revision'' then Num32 (revision d)
      else (case get_uservar name (userdata d) of
              None \<Rightarrow> Absent
            | Some u \<Rightarrow> Var (uv_type u) (uv_value u)))"

text \<open>The value a Set of \<open>buf\<close> (a terminated string) with type flags \<open>ty\<close> leaves under a key.\<close>

definition written :: "string \<Rightarrow> 64 word \<Rightarrow> bytes \<Rightarrow> stored_value" where
  "written name ty buf =
     (let v = take (strlen buf + 1) buf;
          num = fst (strtol (takeWhile (\<lambda>c. c \<noteq> NUL) v))
      in if name = ''kernelfile'' \<or> name = ''kernelparams'' then Text (str8to16 v)
         else if name = ''in_progress'' then Flag (num \<noteq> 0)
         else if name = ''ustate'' then Num16 (word_of_int num)
         else if name = ''watchdog_timeout_sec'' \<or> name = ''revision'' then Num32 (word_of_int num)
         else Var ty v)"

text \<open>
  One library and one set of macro values, for evaluating the program on examples.
  \<open>bgenv_set\<close> and \<open>ebg_env_setglobalstate\<close> are the two definitions above; the slots
  are the handles \<open>latest\<close> and \<open>oldest\<close> (partition 0 is the latest, 1 the oldest);
  every call succeeds; the layout and the checksum are stand-ins (the revision and the
  state as bytes, and their sum).  \<open>USTATE_MAX = 4\<close> is the value under which
  \<open>str2ustate\<close> visits the four state names and \<open>ustate2str\<close> stays inside \<open>ustatemap\<close>.
\<close>

definition sample_lib :: "BGENV option \<Rightarrow> BGENV option \<Rightarrow> lib" where
  "sample_lib latest oldest =
     \<lparr>stat_isdir = (\<lambda>h path. False),
      bgenv_init = (\<lambda>h. True),
      bgenv_open_latest = (\<lambda>h. latest),
      bgenv_open_oldest = (\<lambda>h. oldest),
      bgenv_open_by_index = (\<lambda>h i. if i = 0 then latest else if i = 1 then oldest else None),
      bgenv_write = (\<lambda>h env. True),
      bgenv_set = spec_bgenv_set,
      ebg_env_setglobalstate = spec_setglobalstate,
      zlib_crc32 = (\<lambda>c b. foldl (\<lambda>x y. x + ucast y) c b),
      layout = (\<lambda>f. [ucast (revision f), ucast (ustate f)]),
      open_config_file = (\<lambda>h path. True),
      fread_env = (\<lambda>h. case latest of None \<Rightarrow> None | Some env \<Rightarrow> data env),
      fopen_wb = (\<lambda>h path. True),
      fwrite_env = (\<lambda>h d. True),
      fclose_ok = (\<lambda>h. True)\<rparr>"

definition sample_macros :: macros where
  "sample_macros =
     \<lparr>USTATE_MIN = 0, USTATE_MAX = 4, USTATE_UNKNOWN = 4, ENV_NUM_CONFIG_PARTS = 2,
      ENV_STRING_LENGTH = 255, USERVAR_TYPE_DEFAULT = 0, USERVAR_TYPE_DELETED = 2 ^ 63,
      USERVAR_TYPE_STRING_ASCII = 32, FAT_ENV_FILENAME = ''BGENV.DAT''\<rparr>"

definition start :: prog where
  "start = \<lparr>head = [], err = [], calls = [], mem = []\<rparr>"

section \<open>Auxiliary notions for the statements\<close>

text \<open>The action \<open>journal_add_action\<close> builds from its arguments.\<close>

definition new_action ::
  "BGENV_TASK \<Rightarrow> string option \<Rightarrow> 64 word \<Rightarrow> bytes option \<Rightarrow> nat \<Rightarrow> env_action" where
  "new_action tsk k ty d datalen =
     \<lparr>key = k, type = ty,
      payload = (case d of
                   None \<Rightarrow> None
                 | Some buf \<Rightarrow> if datalen \<noteq> 0 then Some (take datalen buf) else None),
      task = tsk\<rparr>"

text \<open>
  The replay in the words of the specification (4.3, drain and apply): the actions are
  applied one after the other, in the order of the queue.  To be compared with
  \<open>journal_loop\<close>, the loop of the source.
\<close>

fun apply_in_order :: "lib \<Rightarrow> BGENV \<Rightarrow> env_action list \<Rightarrow> prog \<Rightarrow> (BGENV \<times> prog) option" where
  "apply_in_order L env [] st = Some (env, st)"
| "apply_in_order L env (a # q) st =
     (case journal_process_action L env a st of
        None \<Rightarrow> None
      | Some (env1, st1) \<Rightarrow> apply_in_order L env1 q st1)"

text \<open>Examples: the handle of a slot whose record is zero but for its revision, and a Set
  action as the options enqueue it.\<close>

definition slot :: "nat \<Rightarrow> 32 word \<Rightarrow> BGENV" where
  "slot n r = \<lparr>desc = n, data = Some (zero_BG_ENVDATA\<lparr>revision := r\<rparr>)\<rparr>"

definition set_action :: "string \<Rightarrow> string \<Rightarrow> env_action" where
  "set_action k v = \<lparr>key = Some k, type = 0, payload = Some (cbuf v), task = ENV_TASK_SET\<rparr>"

definition del_action :: "string \<Rightarrow> 64 word \<Rightarrow> env_action" where
  "del_action k ty = \<lparr>key = Some k, type = ty, payload = None, task = ENV_TASK_DEL\<rparr>"

text \<open>
  The parse of a state name in the words of the specification (4.2): a case-insensitive
  prefix match against the canonical names, unmatched input yielding UNKNOWN.  A name
  matches when the text starts with it.  To be compared with \<open>str2ustate\<close>.
\<close>

definition ci_prefix :: "string \<Rightarrow> string \<Rightarrow> bool" where
  "ci_prefix name s =
     (map tolower (take (length name) (takeWhile (\<lambda>c. c \<noteq> NUL) s)) = map tolower name)"

definition ustate_of_text :: "macros \<Rightarrow> string \<Rightarrow> 8 word" where
  "ustate_of_text M s =
     (if ci_prefix ''OK'' s then 0
      else if ci_prefix ''INSTALLED'' s then 1
      else if ci_prefix ''TESTING'' s then 2
      else if ci_prefix ''FAILED'' s then 3
      else word_of_int (USTATE_UNKNOWN M))"

text \<open>
  The calls option parsing can make: \<open>stat\<close> for \<open>-f\<close> and \<open>bgenv_be_verbose\<close> for \<open>-v\<close>.
  \<open>only_parse_calls st st'\<close>: the calls of \<open>st'\<close> are those of \<open>st\<close> followed by such calls
  only, so no environment is initialised, opened, changed, written or closed, and no
  environment file is read or written in between.
\<close>

definition parse_time_call :: "call \<Rightarrow> bool" where
  "parse_time_call c =
     (case c of Call_stat path \<Rightarrow> True | Call_bgenv_be_verbose b \<Rightarrow> True | _ \<Rightarrow> False)"

definition only_parse_calls :: "prog \<Rightarrow> prog \<Rightarrow> bool" where
  "only_parse_calls st st' =
     (take (length (calls st)) (calls st') = calls st \<and>
      list_all parse_time_call (drop (length (calls st)) (calls st')))"

definition res_parse_calls :: "prog \<Rightarrow> ('a \<times> prog) res \<Rightarrow> bool" where
  "res_parse_calls st r =
     (case r of
        Return e x \<Rightarrow> only_parse_calls st (snd x)
      | Exit code x \<Rightarrow> only_parse_calls st (snd x)
      | Crash \<Rightarrow> True)"

text \<open>
  \<open>crc_ok\<close>: the field \<open>crc32\<close> of a record is the checksum over the bytes of the fields
  before it.  \<open>writes_ok\<close>: every record handed to \<open>bgenv_write\<close> or to \<open>fwrite\<close> so far
  was such a record.
\<close>

definition crc_ok :: "lib \<Rightarrow> BG_ENVDATA \<Rightarrow> bool" where
  "crc_ok L d = (crc32 d = zlib_crc32 L 0 (layout L (BG_ENVDATA_fields.truncate d)))"

definition write_ok :: "lib \<Rightarrow> call \<Rightarrow> bool" where
  "write_ok L c =
     (case c of
        Call_bgenv_write env \<Rightarrow> (case data env of None \<Rightarrow> False | Some d \<Rightarrow> crc_ok L d)
      | Call_fwrite d \<Rightarrow> crc_ok L d
      | _ \<Rightarrow> True)"

definition writes_ok :: "lib \<Rightarrow> prog \<Rightarrow> bool" where
  "writes_ok L st = list_all (write_ok L) (calls st)"

text \<open>
  The number a text denotes as a decimal integer: optional white space, an optional
  sign, then one digit or more and nothing after them.  Anything else (the empty text,
  a text with no digit, a text with a character after the digits) denotes no number.
\<close>

definition decimal_text :: "string \<Rightarrow> int option" where
  "decimal_text s =
     (let r = dropWhile isspace s;
          body = (case r of [] \<Rightarrow> [] | c # t \<Rightarrow> if c = CHR ''-'' \<or> c = CHR ''+'' then t else r)
      in if body \<noteq> [] \<and> list_all isdigit body
         then Some (case r of [] \<Rightarrow> 0 | c # t \<Rightarrow> if c = CHR ''-'' then - decimal body else decimal body)
         else None)"

text \<open>
  A projection \<open>f\<close> of the record is untouched by a queue of actions when replaying any
  one of them, on any handle and in any state, leaves \<open>f\<close> of the record as it was.
\<close>

definition untouched :: "lib \<Rightarrow> env_action list \<Rightarrow> (BG_ENVDATA \<Rightarrow> 'x) \<Rightarrow> bool" where
  "untouched L q f =
     (\<forall>a env st env' st'.
        a \<in> set q \<and> journal_process_action L env a st = Some (env', st') \<longrightarrow>
        map_option f (data env') = map_option f (data env))"

text \<open>Example: the handle of a slot with a revision and a watchdog timeout.\<close>

definition slot_wd :: "nat \<Rightarrow> 32 word \<Rightarrow> 32 word \<Rightarrow> BGENV" where
  "slot_wd n r w = \<lparr>desc = n, data = Some (zero_BG_ENVDATA\<lparr>watchdog_timeout_sec := w, revision := r\<rparr>)\<rparr>"

declare journal_loop.simps [simp del]
declare str2ustate_loop.simps [simp del]
declare utoa.simps [simp del]
declare dump_envs_from.simps [simp del]

section \<open>Facts about the string functions\<close>

lemma char_diff_0: "(int (of_char c) - int (of_char d) = 0) = (c = d)"
  by simp

lemma strncmp_cbuf:
  "NUL \<notin> set b \<Longrightarrow>
   (strncmp (cbuf a) (cbuf b) (Suc (length b)) = 0) = (takeWhile (\<lambda>c. c \<noteq> NUL) a = b)"
proof (induction b arbitrary: a)
  case Nil
  then show ?case by (cases a) (auto simp: cbuf_def char_diff_0)
next
  case (Cons y ys)
  then show ?case by (cases a) (auto simp: cbuf_def char_diff_0)
qed

lemma tolower_NUL: "(tolower c = NUL) = (c = NUL)"
  by (auto simp: tolower_def NUL_def split: option.splits if_splits)

lemma tolower_NUL_sym: "(NUL = tolower c) = (c = NUL)"
  using tolower_NUL [of c] by auto

lemma tolower_NUL_self: "tolower NUL = NUL"
  by (simp add: tolower_NUL)

lemma strncasecmp_cbuf:
  "NUL \<notin> set b \<Longrightarrow>
   (strncasecmp (cbuf a) (cbuf b) (length b) = 0) =
   (map tolower (take (length b) (takeWhile (\<lambda>c. c \<noteq> NUL) a)) = map tolower b)"
proof (induction b arbitrary: a)
  case Nil
  then show ?case by simp
next
  case (Cons y ys)
  then show ?case
    by (cases a) (auto simp: cbuf_def tolower_NUL tolower_NUL_sym tolower_NUL_self char_diff_0)
qed

lemma strlen_cbuf: "NUL \<notin> set s \<Longrightarrow> strlen (cbuf s) = length s"
  by (induction s) (auto simp: strlen_def cbuf_def)

section \<open>The names of the update states\<close>

lemma unat_wi_small: "0 \<le> m \<Longrightarrow> m \<le> 4 \<Longrightarrow> unat (word_of_int m :: 8 word) = nat m"
  by (simp add: unat_eq_nat_uint uint_word_of_int take_bit_eq_mod)

text \<open>
  Claim C5, as amended.  A state value above \<open>USTATE_MAX\<close> is clamped to \<open>USTATE_MAX\<close>
  before the table lookup, and with \<open>0 \<le> USTATE_MAX \<le> 4\<close> the lookup stays inside the
  five entries of \<open>ustatemap\<close>: the text is that of entry \<open>USTATE_MAX\<close>.  With
  \<open>USTATE_MAX = 4\<close> it is "UNKNOWN".
\<close>

theorem ustate2str_clamped:
  assumes "0 \<le> USTATE_MAX M" and "USTATE_MAX M \<le> 4" and "USTATE_MAX M < uint u"
  shows "ustate2str M u = Some (ustatemap ! nat (USTATE_MAX M)) \<and>
         ustate2str M u = ustate2str M (word_of_int (USTATE_MAX M)) \<and>
         (USTATE_MAX M = 4 \<longrightarrow> ustate2str M u = Some ''UNKNOWN'')"
proof -
  have n: "unat (word_of_int (USTATE_MAX M) :: 8 word) = nat (USTATE_MAX M)"
    using assms by (simp add: unat_wi_small)
  have u: "uint (word_of_int (USTATE_MAX M) :: 8 word) = USTATE_MAX M"
    using assms by (simp add: uint_word_of_int take_bit_eq_mod)
  have l: "nat (USTATE_MAX M) < length ustatemap"
    using assms by (simp add: ustatemap_def)
  have a: "ustate2str M u = Some (ustatemap ! nat (USTATE_MAX M))"
    using assms n l by (simp add: ustate2str_def)
  have b: "ustate2str M (word_of_int (USTATE_MAX M)) = Some (ustatemap ! nat (USTATE_MAX M))"
    using n l u by (simp add: ustate2str_def)
  have c: "USTATE_MAX M = 4 \<longrightarrow> ustatemap ! nat (USTATE_MAX M) = ''UNKNOWN''"
    by (simp add: ustatemap_def)
  show ?thesis using a b c by simp
qed

theorem ustate2str_clamped_witness:
  "USTATE_MAX sample_macros = 4 \<and> (4::int) < uint (200 :: 8 word) \<and>
   ustate2str sample_macros 200 = Some ''UNKNOWN''"
proof -
  have m: "USTATE_MAX sample_macros = 4" by (simp add: sample_macros_def)
  have h: "USTATE_MAX sample_macros < uint (200 :: 8 word)" by (simp add: m)
  from ustate2str_clamped [of sample_macros 200] m h show ?thesis
    by (simp add: ustatemap_def)
qed

text \<open>Claim C5 as stated fails: the value 200 is rendered "UNKNOWN", the state 3 "FAILED".\<close>

theorem ustate2str_not_FAILED:
  "ustate2str sample_macros 200 = Some ''UNKNOWN'' \<and>
   ustate2str sample_macros 3 = Some ''FAILED'' \<and>
   ustate2str sample_macros 200 \<noteq> ustate2str sample_macros 3"
  by (simp add: ustate2str_def sample_macros_def ustatemap_def)

section \<open>Facts about the journal\<close>

lemma alloc_frame:
  "alloc st = (ok, st') \<Longrightarrow> head st' = head st \<and> err st' = err st \<and> calls st' = calls st"
  by (auto simp: alloc_def split: list.splits)

lemma ENOMEM_nonzero: "ENOMEM \<noteq> 0"
  by (simp add: ENOMEM_def)

lemma journal_add_action_cases:
  "journal_add_action tsk k ty d n st = (e, st') \<Longrightarrow>
   err st' = err st \<and> calls st' = calls st \<and>
   ((e = 0 \<and> head st' = head st @ [new_action tsk k ty d n]) \<or>
    (e = ENOMEM \<and> head st' = head st))"
  by (auto simp: journal_add_action_def new_action_def alloc_def
           split: prod.splits if_splits option.splits list.splits)

lemma journal_add_action_mem:
  "mem st = [] \<Longrightarrow>
   journal_add_action tsk k ty d n st = (0, st\<lparr>head := head st @ [new_action tsk k ty d n]\<rparr>)"
  by (auto simp: journal_add_action_def new_action_def alloc_def split: option.splits)

lemma jpa_frame:
  "journal_process_action L env a st = Some (env1, st1) \<Longrightarrow>
   head st1 = head st \<and> mem st1 = mem st"
  by (auto simp: journal_process_action_def report_def called_def Let_def
           split: BGENV_TASK.splits option.splits if_splits prod.splits)

lemma jpa_head:
  "journal_process_action L env a (st\<lparr>head := h\<rparr>) =
   map_option (\<lambda>(e, s). (e, s\<lparr>head := h\<rparr>)) (journal_process_action L env a st)"
  by (auto simp: journal_process_action_def report_def called_def Let_def
           split: BGENV_TASK.splits option.splits if_splits prod.splits)

lemma journal_loop_Nil: "head st = [] \<Longrightarrow> journal_loop L env st = Some (env, st)"
  by (subst journal_loop.simps) simp

lemma journal_loop_Cons:
  "head st = a # q \<Longrightarrow>
   journal_loop L env st =
     (case journal_process_action L env a st of
        None \<Rightarrow> None
      | Some (env1, st1) \<Rightarrow> journal_loop L env1 (st1\<lparr>head := q\<rparr>))"
  by (subst journal_loop.simps) (auto split: option.splits dest: jpa_frame)

lemma apply_in_order_head:
  "apply_in_order L env q (st\<lparr>head := h\<rparr>) =
   map_option (\<lambda>(e, s). (e, s\<lparr>head := h\<rparr>)) (apply_in_order L env q st)"
proof (induction q arbitrary: env st)
  case Nil
  then show ?case by simp
next
  case (Cons a q)
  show ?case
    by (cases "journal_process_action L env a st") (auto simp: jpa_head Cons.IH)
qed

lemma journal_loop_in_order:
  "head st = q \<Longrightarrow>
   journal_loop L env st = map_option (\<lambda>(e, s). (e, s\<lparr>head := []\<rparr>)) (apply_in_order L env q st)"
proof (induction q arbitrary: env st)
  case Nil
  then show ?case by (simp add: journal_loop_Nil)
next
  case (Cons a q)
  show ?case
  proof (cases "journal_process_action L env a st")
    case None
    then show ?thesis using Cons.prems by (simp add: journal_loop_Cons)
  next
    case (Some r)
    obtain env1 st1 where r: "r = (env1, st1)" by (cases r)
    have "journal_loop L env st = journal_loop L env1 (st1\<lparr>head := q\<rparr>)"
      using Cons.prems Some r by (simp add: journal_loop_Cons)
    also have "\<dots> = map_option (\<lambda>(e, s). (e, s\<lparr>head := []\<rparr>)) (apply_in_order L env1 q (st1\<lparr>head := q\<rparr>))"
      by (rule Cons.IH) simp
    also have "\<dots> = map_option (\<lambda>(e, s). (e, s\<lparr>head := []\<rparr>)) (apply_in_order L env1 q st1)"
      by (simp add: apply_in_order_head option.map_comp comp_def split_def)
    finally show ?thesis using Some r by simp
  qed
qed

section \<open>Replaying one action\<close>

lemma NUL_notin_ustate: "NUL \<notin> set ''ustate''"
  by (simp add: NUL_def)

lemma ustate_cmp:
  "(strncmp (cbuf k) (cbuf ''ustate'') (Suc (strlen (cbuf ''ustate''))) = 0) =
   (takeWhile (\<lambda>c. c \<noteq> NUL) k = ''ustate'')"
  using strncmp_cbuf [OF NUL_notin_ustate, of k]
  by (simp add: strlen_cbuf [OF NUL_notin_ustate])

lemma strtol_result:
  "strtol s = (v, used, errno) \<Longrightarrow>
   (errno = 0 \<or> errno = ERANGE) \<and> (errno = ERANGE \<longrightarrow> v = LONG_MAX \<or> v = LONG_MIN)"
  by (auto simp: strtol_def Let_def ERANGE_def split: if_splits)

lemma ustate_test:
  "strtol s = (v, used, errno) \<Longrightarrow>
   ((errno = ERANGE \<and> ((word_of_int v :: 64 word) = word_of_int LONG_MAX \<or>
                        (word_of_int v :: 64 word) = word_of_int LONG_MIN)) \<or>
    (errno \<noteq> 0 \<and> (word_of_int v :: 64 word) = 0) \<or> used = 0) =
   (used = 0 \<or> errno = ERANGE)"
  using strtol_result [of s v used errno] by auto



text \<open>
  The test that \<open>journal_process_action\<close> makes on the payload of a Set on "ustate": the
  action is refused if and only if \<open>strtol\<close> converts nothing (no digit where the number
  should start: empty input among others) or reports a value outside \<open>long\<close>.  Then the
  error is reported, the record and the calls are as before, and the loop goes on with
  the rest of the queue.  Otherwise \<open>ebg_env_setglobalstate\<close> is called with the value cut
  to 16 bits; what follows the number in the payload is not looked at.
\<close>

theorem ustate_payload_parse:
  assumes "task a = ENV_TASK_SET" and "key a = Some ''ustate''" and "payload a = Some buf"
      and "strtol (takeWhile (\<lambda>c. c \<noteq> NUL) buf) = (v, used, errno)"
  shows "(used = 0 \<or> errno = ERANGE \<longrightarrow>
            journal_process_action L env a st =
              Some (env, report (Invalid_value_for_ustate buf) st) \<and>
            (head st = a # q \<longrightarrow>
               journal_loop L env st =
                 journal_loop L env (report (Invalid_value_for_ustate buf) st\<lparr>head := q\<rparr>))) \<and>
         (\<not> (used = 0 \<or> errno = ERANGE) \<longrightarrow>
            (\<exists>st1. journal_process_action L env a st =
               Some (snd (ebg_env_setglobalstate L (calls st) env
                            (ucast (word_of_int v :: 64 word))), st1) \<and>
               calls st1 = calls st @
                 [Call_ebg_env_setglobalstate env (ucast (word_of_int v :: 64 word))]))"
proof -
  have k: "strncmp (cbuf ''ustate'') (cbuf ''ustate'') (Suc (strlen (cbuf ''ustate''))) = 0"
    by (simp add: ustate_cmp NUL_def)
  have rej: "used = 0 \<or> errno = ERANGE \<Longrightarrow>
      journal_process_action L env a st = Some (env, report (Invalid_value_for_ustate buf) st)"
    using assms ustate_test [OF assms(4)]
    by (simp add: journal_process_action_def k Let_def)
  have acc: "\<not> (used = 0 \<or> errno = ERANGE) \<Longrightarrow>
      \<exists>st1. journal_process_action L env a st =
               Some (snd (ebg_env_setglobalstate L (calls st) env
                            (ucast (word_of_int v :: 64 word))), st1) \<and>
             calls st1 = calls st @
               [Call_ebg_env_setglobalstate env (ucast (word_of_int v :: 64 word))]"
    using assms ustate_test [OF assms(4)]
    by (auto simp: journal_process_action_def k Let_def report_def called_def
             split: prod.splits)
  show ?thesis
    using rej acc by (auto simp: journal_loop_Cons)
qed

theorem ustate_payload_parse_witness:
  "journal_process_action (sample_lib None None) (slot 0 2) (set_action ''ustate'' ''abc'') start =
     Some (slot 0 2, report (Invalid_value_for_ustate (cbuf ''abc'')) start) \<and>
   journal_loop (sample_lib None None) (slot 0 2)
       (start\<lparr>head := [set_action ''ustate'' ''abc'', set_action ''ustate'' ''1'']\<rparr>) =
     journal_loop (sample_lib None None) (slot 0 2)
       (report (Invalid_value_for_ustate (cbuf ''abc''))
          (start\<lparr>head := [set_action ''ustate'' ''abc'', set_action ''ustate'' ''1'']\<rparr>)
          \<lparr>head := [set_action ''ustate'' ''1'']\<rparr>)"
proof -
  let ?a = "set_action ''ustate'' ''abc''"
  let ?st = "start\<lparr>head := [?a, set_action ''ustate'' ''1'']\<rparr>"
  have h1: "task ?a = ENV_TASK_SET" "key ?a = Some ''ustate''" "payload ?a = Some (cbuf ''abc'')"
    by (simp_all add: set_action_def)
  have h2: "strtol (takeWhile (\<lambda>c. c \<noteq> NUL) (cbuf ''abc'')) = (0, 0, 0)"
    by code_simp
  have h3: "head ?st = ?a # [set_action ''ustate'' ''1'']" by simp
  from ustate_payload_parse [OF h1 h2, of "sample_lib None None" "slot 0 2" start "[]"]
  have a: "journal_process_action (sample_lib None None) (slot 0 2) ?a start =
     Some (slot 0 2, report (Invalid_value_for_ustate (cbuf ''abc'')) start)" by simp
  from ustate_payload_parse [OF h1 h2, of "sample_lib None None" "slot 0 2" ?st
         "[set_action ''ustate'' ''1'']"] h3
  have b: "journal_loop (sample_lib None None) (slot 0 2) ?st =
     journal_loop (sample_lib None None) (slot 0 2)
       (report (Invalid_value_for_ustate (cbuf ''abc'')) ?st
          \<lparr>head := [set_action ''ustate'' ''1'']\<rparr>)"
    by simp
  show ?thesis using a b by simp
qed

text \<open>
  Claim C4.  The replay validates the payload of a Set on "ustate" ("Invalid value for
  ustate"), but its test lacks two of the checks that \<open>parse_int\<close> makes for the option
  \<open>-s\<close>: that nothing follows the number, and that the value is an \<open>int\<close>.  The payload
  "2abc" is accepted and sets the state 2, in the single action as in the whole run
  \<open>bg_setenv -x ustate=2abc\<close>, where nothing is printed to \<open>stderr\<close>; the payload
  "4294967298", outside \<open>int\<close>, is accepted as the state 2 as well.  The same texts given
  to \<open>-s\<close> are refused: \<open>parse_int\<close> sets \<open>EINVAL\<close> and the run returns 1.
\<close>

theorem ustate_payload_trailing_accepted:
  "journal_process_action (sample_lib None None) (slot 0 2) (set_action ''ustate'' ''2abc'') start =
     Some (\<lparr>desc = 0, data = Some (zero_BG_ENVDATA\<lparr>revision := 2, ustate := 2\<rparr>)\<rparr>,
           start\<lparr>calls := [Call_ebg_env_setglobalstate (slot 0 2) 2]\<rparr>) \<and>
   bg_setenv sample_macros (sample_lib (Some (slot 0 2)) None) 3
       [(opt CHR ''x'', ''ustate=2abc'')] start =
     Some (Returned 0,
           start\<lparr>calls :=
             [Call_bgenv_init, Call_bgenv_open_latest,
              Call_ebg_env_setglobalstate (slot 0 2) 2,
              Call_bgenv_write
                \<lparr>desc = 0, data = Some (zero_BG_ENVDATA\<lparr>ustate := 2, revision := 2, crc32 := 4\<rparr>)\<rparr>,
              Call_bgenv_close
                (Some \<lparr>desc = 0,
                        data = Some (zero_BG_ENVDATA\<lparr>ustate := 2, revision := 2, crc32 := 4\<rparr>)\<rparr>),
              Call_bgenv_finalize]\<rparr>) \<and>
   bg_setenv sample_macros (sample_lib (Some (slot 0 2)) None) 3
       [(opt CHR ''x'', ''ustate=4294967298'')] start =
     Some (Returned 0,
           start\<lparr>calls :=
             [Call_bgenv_init, Call_bgenv_open_latest,
              Call_ebg_env_setglobalstate (slot 0 2) 2,
              Call_bgenv_write
                \<lparr>desc = 0, data = Some (zero_BG_ENVDATA\<lparr>ustate := 2, revision := 2, crc32 := 4\<rparr>)\<rparr>,
              Call_bgenv_close
                (Some \<lparr>desc = 0,
                        data = Some (zero_BG_ENVDATA\<lparr>ustate := 2, revision := 2, crc32 := 4\<rparr>)\<rparr>),
              Call_bgenv_finalize]\<rparr>) \<and>
   parse_int ''2abc'' = (- 1, EINVAL) \<and>
   parse_int ''4294967298'' = (- 1, EINVAL) \<and>
   bg_setenv sample_macros (sample_lib (Some (slot 0 2)) None) 3 [(opt CHR ''s'', ''2abc'')] start =
     Some (Returned 1, start\<lparr>err := [Invalid_state_specified]\<rparr>) \<and>
   bg_setenv sample_macros (sample_lib (Some (slot 0 2)) None) 3
       [(opt CHR ''s'', ''4294967298'')] start =
     Some (Returned 1, start\<lparr>err := [Invalid_state_specified]\<rparr>)"
  by code_simp

section \<open>User variables on the command line\<close>

lemma strtok_all_delims: "set s \<subseteq> {d} \<Longrightarrow> strtok s d = (None, [])"
  by (auto simp: strtok_def Let_def dropWhile_eq_Nil_conv)

lemma strtok_replicate: "strtok (replicate n d) d = (None, [])"
  by (rule strtok_all_delims) auto

lemma dropWhile_replicate_append:
  "k \<noteq> [] \<Longrightarrow> d \<notin> set k \<Longrightarrow> dropWhile (\<lambda>c. c = d) (replicate i d @ k @ r) = k @ r"
  by (induction i) (auto simp: neq_Nil_conv)

lemma takeWhile_key: "d \<notin> set k \<Longrightarrow> takeWhile (\<lambda>c. c \<noteq> d) (k @ replicate j d) = k"
  by (induction k) (auto simp: takeWhile_eq_Nil_iff neq_Nil_conv split: nat.splits)

lemma dropWhile_key: "d \<notin> set k \<Longrightarrow> dropWhile (\<lambda>c. c \<noteq> d) (k @ replicate j d) = replicate j d"
  by (induction k) (auto simp: dropWhile_eq_self_iff split: nat.splits)

lemma strtok_key_only:
  "k \<noteq> [] \<Longrightarrow> d \<notin> set k \<Longrightarrow>
   strtok (replicate i d @ k @ replicate j d) d = (Some k, replicate (j - 1) d)"
proof -
  assume k: "k \<noteq> []" and d: "d \<notin> set k"
  have 1: "dropWhile (\<lambda>c. c = d) (replicate i d @ k @ replicate j d) = k @ replicate j d"
    using k d by (rule dropWhile_replicate_append)
  have 2: "k @ replicate j d \<noteq> []" using k by simp
  show ?thesis
    unfolding strtok_def Let_def 1 using 2 d
    by (simp add: takeWhile_key dropWhile_key)
qed

lemma journal_add_action_no_data:
  "journal_add_action tsk (Some k) ty None 0 st =
     (if fst (alloc st) \<and> fst (alloc (snd (alloc st)))
      then (0, snd (alloc (snd (alloc st)))
                 \<lparr>head := head st @ [\<lparr>key = Some k, type = ty, payload = None, task = tsk\<rparr>]\<rparr>)
      else (ENOMEM, if fst (alloc st) then snd (alloc (snd (alloc st))) else snd (alloc st)))"
  by (auto simp: journal_add_action_def alloc_def split: prod.splits list.splits)

lemma head_alloc: "head (snd (alloc st)) = head st"
  by (simp add: alloc_def split: list.splits)

text \<open>
  Claim C10, as amended.  An argument of \<open>-x\<close> that holds a key (a first run of
  characters other than \<open>=\<close>) and no further token, such as "KEY" or "KEY=", makes
  \<open>set_uservars\<close> return what \<open>journal_add_action\<close> returns for a Delete of that key
  with the flags \<open>USERVAR_TYPE_DEFAULT | USERVAR_TYPE_DELETED\<close> and no data: when both its
  allocations succeed, 0 with the action at the tail of the queue; otherwise \<open>ENOMEM\<close>
  with the queue as it was.  An argument without a key (empty, or only \<open>=\<close>) enqueues
  nothing and returns 0.
\<close>

theorem set_uservars_without_value:
  assumes "k \<noteq> []" and "CHR ''='' \<notin> set k"
  shows "set_uservars M (replicate i CHR ''='' @ k @ replicate j CHR ''='') st =
           journal_add_action ENV_TASK_DEL (Some k)
             (USERVAR_TYPE_DEFAULT M OR USERVAR_TYPE_DELETED M) None 0 st \<and>
         (fst (alloc st) \<and> fst (alloc (snd (alloc st))) \<longrightarrow>
            set_uservars M (replicate i CHR ''='' @ k @ replicate j CHR ''='') st =
              (0, snd (alloc (snd (alloc st)))
                    \<lparr>head := head st @
                       [\<lparr>key = Some k, type = USERVAR_TYPE_DEFAULT M OR USERVAR_TYPE_DELETED M,
                         payload = None, task = ENV_TASK_DEL\<rparr>]\<rparr>)) \<and>
         (\<not> (fst (alloc st) \<and> fst (alloc (snd (alloc st)))) \<longrightarrow>
            fst (set_uservars M (replicate i CHR ''='' @ k @ replicate j CHR ''='') st) = ENOMEM \<and>
            head (snd (set_uservars M (replicate i CHR ''='' @ k @ replicate j CHR ''='') st)) = head st) \<and>
         set_uservars M (replicate i CHR ''='') st = (0, st)"
proof -
  let ?arg = "replicate i CHR ''='' @ k @ replicate j CHR ''=''"
  have a: "set_uservars M ?arg st =
             journal_add_action ENV_TASK_DEL (Some k)
               (USERVAR_TYPE_DEFAULT M OR USERVAR_TYPE_DELETED M) None 0 st"
    using assms by (simp add: set_uservars_def strtok_key_only strtok_replicate)
  have d: "set_uservars M (replicate i CHR ''='') st = (0, st)"
    by (simp add: set_uservars_def strtok_replicate)
  show ?thesis
    unfolding a using d by (simp add: journal_add_action_no_data head_alloc)
qed

text \<open>
  Claim C10 as stated fails when \<open>calloc\<close> fails: "KEY" has a key and no value, yet
  \<open>ENOMEM\<close> is returned and nothing is enqueued.
\<close>

theorem set_uservars_out_of_memory:
  "set_uservars sample_macros ''KEY'' (start\<lparr>mem := [False]\<rparr>) = (ENOMEM, start) \<and> ENOMEM \<noteq> 0"
  by code_simp

theorem set_uservars_without_value_witness:
  "set_uservars sample_macros ''KEY='' start =
     (0, start\<lparr>head := [\<lparr>key = Some ''KEY'', type = 2 ^ 63, payload = None, task = ENV_TASK_DEL\<rparr>]\<rparr>) \<and>
   set_uservars sample_macros ''=='' start = (0, start)"
proof -
  have k: "''KEY'' \<noteq> []" "CHR ''='' \<notin> set ''KEY''" by simp_all
  have m: "mem start = []" by (simp add: start_def)
  note t = set_uservars_without_value [OF k, of sample_macros]
  have "set_uservars sample_macros (replicate 0 CHR ''='' @ ''KEY'' @ replicate 1 CHR ''='') start =
          (0, start\<lparr>head := head start @
                [\<lparr>key = Some ''KEY'',
                  type = USERVAR_TYPE_DEFAULT sample_macros OR USERVAR_TYPE_DELETED sample_macros,
                  payload = None, task = ENV_TASK_DEL\<rparr>]\<rparr>)"
    using t [of 0 1 start, THEN conjunct2, THEN conjunct1] m by (simp add: alloc_def)
  then have a: "set_uservars sample_macros ''KEY='' start =
     (0, start\<lparr>head := [\<lparr>key = Some ''KEY'', type = 2 ^ 63, payload = None, task = ENV_TASK_DEL\<rparr>]\<rparr>)"
    by (simp add: start_def sample_macros_def)
  have "set_uservars sample_macros (replicate 2 CHR ''='') start = (0, start)"
    using t [of 2 0 start] by blast
  then have b: "set_uservars sample_macros ''=='' start = (0, start)"
    by (simp add: numeral_2_eq_2)
  show ?thesis using a b by simp
qed

section \<open>The library of the specification under the journal\<close>

lemma get_uservar_key: "get_uservar k us = Some u \<Longrightarrow> uv_key u = k"
  by (induction us) (auto split: if_splits)

lemma get_set_same:
  "get_uservar k (set_uservar k ty v us) = Some \<lparr>uv_key = k, uv_type = ty, uv_value = v\<rparr>"
  by (induction us) auto

lemma get_set_other: "k' \<noteq> k \<Longrightarrow> get_uservar k (set_uservar k' ty v us) = get_uservar k us"
  by (induction us) auto

lemma spec_bgenv_set_data:
  "data env = Some d \<Longrightarrow> \<exists>d'. data (spec_bgenv_set h env k ty buf n) = Some d'"
  by (auto simp: spec_bgenv_set_def Let_def split: option.splits)

lemma stored_set_same:
  "data env = Some d \<Longrightarrow>
   \<exists>d'. data (spec_bgenv_set h env (Some k) ty buf (strlen buf + 1)) = Some d' \<and>
        stored d' k = written k ty buf"
  by (simp add: spec_bgenv_set_def stored_def written_def Let_def get_set_same)

lemma stored_set_other:
  "data env = Some d \<Longrightarrow> k' \<noteq> Some k \<Longrightarrow>
   \<exists>d'. data (spec_bgenv_set h env k' ty buf n) = Some d' \<and> stored d' k = stored d k"
  by (cases k') (auto simp: spec_bgenv_set_def stored_def Let_def get_set_other)

lemma stored_setglobalstate:
  "data env = Some d \<Longrightarrow> k \<noteq> ''ustate'' \<Longrightarrow>
   \<exists>d'. data (snd (spec_setglobalstate h env u)) = Some d' \<and> stored d' k = stored d k"
  by (auto simp: spec_setglobalstate_def stored_def)

lemma sample_bgenv_set: "bgenv_set (sample_lib lo ol) = spec_bgenv_set"
  by (simp add: sample_lib_def)

lemma sample_setglobalstate: "ebg_env_setglobalstate (sample_lib lo ol) = spec_setglobalstate"
  by (simp add: sample_lib_def)

lemma jpa_set:
  assumes "task a = ENV_TASK_SET" and "key a = Some k" and "payload a = Some buf"
  shows "(takeWhile (\<lambda>c. c \<noteq> NUL) k \<noteq> ''ustate'' \<longrightarrow>
            journal_process_action L env a st =
              Some (bgenv_set L (calls st) env (Some k) (type a) buf (strlen buf + 1),
                    called (Call_bgenv_set env (Some k) (type a) buf (strlen buf + 1)) st)) \<and>
         (takeWhile (\<lambda>c. c \<noteq> NUL) k = ''ustate'' \<longrightarrow>
            journal_process_action L env a st =
                Some (env, report (Invalid_value_for_ustate buf) st) \<or>
            (\<exists>u st1. journal_process_action L env a st =
                        Some (snd (ebg_env_setglobalstate L (calls st) env u), st1) \<and>
                      calls st1 = calls st @ [Call_ebg_env_setglobalstate env u]))"
  using assms
  by (auto simp: journal_process_action_def ustate_cmp Let_def report_def called_def
           split: prod.splits)

lemma jpa_sample_other:
  assumes "journal_process_action (sample_lib lo ol) env a st = Some (env1, st1)"
      and "data env = Some d" and "key a \<noteq> Some k" and "k \<noteq> ''ustate''"
  shows "\<exists>d1. data env1 = Some d1 \<and> stored d1 k = stored d k"
proof (cases "task a")
  case ENV_TASK_DEL
  then show ?thesis
    using assms stored_set_other [OF assms(2), of "key a" k]
    by (auto simp: journal_process_action_def sample_bgenv_set)
next
  case ENV_TASK_SET
  show ?thesis
  proof (cases "key a")
    case None
    then show ?thesis using assms ENV_TASK_SET by (simp add: journal_process_action_def)
  next
    case (Some k')
    show ?thesis
    proof (cases "payload a")
      case None
      then show ?thesis
        using assms ENV_TASK_SET Some by (simp add: journal_process_action_def split: if_splits)
    next
      case (Some buf)
      note h = jpa_set [OF ENV_TASK_SET \<open>key a = Some k'\<close> Some, of "sample_lib lo ol" env st]
      show ?thesis
      proof (cases "takeWhile (\<lambda>c. c \<noteq> NUL) k' = ''ustate''")
        case False
        then have "env1 = spec_bgenv_set (calls st) env (Some k') (type a) buf (strlen buf + 1)"
          using h assms(1) by (simp add: sample_bgenv_set)
        then show ?thesis
          using stored_set_other [OF assms(2), of "Some k'" k] assms(3) \<open>key a = Some k'\<close>
          by auto
      next
        case True
        then consider "env1 = env" | u where "env1 = snd (spec_setglobalstate (calls st) env u)"
          using h assms(1) by (auto simp: sample_setglobalstate)
        then show ?thesis
        proof cases
          case 1
          then show ?thesis using assms(2) by simp
        next
          case 2
          then show ?thesis using stored_setglobalstate [OF assms(2) assms(4)] by auto
        qed
      qed
    qed
  qed
qed

lemma apply_in_order_append:
  "apply_in_order L env (q1 @ q2) st =
     (case apply_in_order L env q1 st of
        None \<Rightarrow> None
      | Some (env1, st1) \<Rightarrow> apply_in_order L env1 q2 st1)"
  by (induction q1 arbitrary: env st) (auto split: option.splits)

lemma jpa_sample_data:
  assumes "journal_process_action (sample_lib lo ol) env a st = Some (env1, st1)"
      and "data env \<noteq> None"
  shows "data env1 \<noteq> None"
  using assms
  by (auto simp: journal_process_action_def sample_bgenv_set sample_setglobalstate
        spec_setglobalstate_def Let_def
      split: BGENV_TASK.splits option.splits if_splits prod.splits
      intro: spec_bgenv_set_data)

lemma apply_sample_data:
  "apply_in_order (sample_lib lo ol) env q st = Some (env1, st1) \<Longrightarrow> data env \<noteq> None \<Longrightarrow>
   data env1 \<noteq> None"
proof (induction q arbitrary: env st)
  case Nil
  then show ?case by simp
next
  case (Cons a q)
  then show ?case
    by (auto split: option.splits dest: jpa_sample_data)
qed

lemma apply_sample_other:
  "apply_in_order (sample_lib lo ol) env q st = Some (env1, st1) \<Longrightarrow> data env = Some d \<Longrightarrow>
   list_all (\<lambda>b. key b \<noteq> Some k) q \<Longrightarrow> k \<noteq> ''ustate'' \<Longrightarrow>
   \<exists>d1. data env1 = Some d1 \<and> stored d1 k = stored d k"
proof (induction q arbitrary: env st d)
  case Nil
  then show ?case by simp
next
  case (Cons a q)
  from Cons.prems(1) obtain e2 s2 where
    p: "journal_process_action (sample_lib lo ol) env a st = Some (e2, s2)" and
    r: "apply_in_order (sample_lib lo ol) e2 q s2 = Some (env1, st1)"
    by (auto split: option.splits)
  from jpa_sample_other [OF p Cons.prems(2)] Cons.prems(3,4)
  obtain d2 where d2: "data e2 = Some d2" "stored d2 k = stored d k" by auto
  from Cons.IH [OF r d2(1)] Cons.prems(3,4) d2(2) show ?case by auto
qed

text \<open>
  Claim C3, as amended.  \<open>journal_add_action\<close> either returns 0 with the new action at
  the tail of the queue, or \<open>ENOMEM\<close> with the queue as it was.  The loop of
  \<open>update_environment\<close> applies the actions one after the other in the order of the
  queue and leaves the queue empty.  With \<open>bgenv_set\<close> as the specification describes
  it: once a Set on a key other than "ustate" is applied and no later action names that
  key, the value stored under the key at the end is the one that Set wrote, whatever
  was set before.
\<close>

theorem journal_fifo:
  "(journal_add_action tsk k0 ty d n st = (e, st1) \<longrightarrow>
      (e = 0 \<and> head st1 = head st @ [new_action tsk k0 ty d n]) \<or>
      (e = ENOMEM \<and> head st1 = head st)) \<and>
   journal_loop L env st =
     map_option (\<lambda>(e, s). (e, s\<lparr>head := []\<rparr>)) (apply_in_order L env (head st) st) \<and>
   (task a = ENV_TASK_SET \<and> key a = Some k \<and> payload a = Some buf \<and>
    takeWhile (\<lambda>c. c \<noteq> NUL) k \<noteq> ''ustate'' \<and> list_all (\<lambda>b. key b \<noteq> Some k) q2 \<and>
    data env = Some d0 \<and>
    journal_loop (sample_lib lo ol) env (st\<lparr>head := q1 @ a # q2\<rparr>) = Some (env', st') \<longrightarrow>
      (\<exists>d'. data env' = Some d' \<and> stored d' k = written k (type a) buf) \<and> head st' = [])"
proof -
  let ?L = "sample_lib lo ol"
  have A: "journal_add_action tsk k0 ty d n st = (e, st1) \<longrightarrow>
      (e = 0 \<and> head st1 = head st @ [new_action tsk k0 ty d n]) \<or>
      (e = ENOMEM \<and> head st1 = head st)"
    using journal_add_action_cases [of tsk k0 ty d n st e st1] by blast
  have B: "journal_loop L env st =
     map_option (\<lambda>(e, s). (e, s\<lparr>head := []\<rparr>)) (apply_in_order L env (head st) st)"
    by (rule journal_loop_in_order) simp
  have C: "(\<exists>d'. data env' = Some d' \<and> stored d' k = written k (type a) buf) \<and> head st' = []"
    if a: "task a = ENV_TASK_SET" "key a = Some k" "payload a = Some buf"
       "takeWhile (\<lambda>c. c \<noteq> NUL) k \<noteq> ''ustate''"
      and q2: "list_all (\<lambda>b. key b \<noteq> Some k) q2" and d0: "data env = Some d0"
      and run: "journal_loop ?L env (st\<lparr>head := q1 @ a # q2\<rparr>) = Some (env', st')"
  proof -
    let ?st = "st\<lparr>head := q1 @ a # q2\<rparr>"
    have k: "k \<noteq> ''ustate''" using a(4) by (auto simp: NUL_def)
    from run have r: "map_option (\<lambda>(e, s). (e, s\<lparr>head := []\<rparr>))
                        (apply_in_order ?L env (q1 @ a # q2) ?st) = Some (env', st')"
      by (simp add: journal_loop_in_order [of ?st "q1 @ a # q2"])
    then obtain s' where s': "apply_in_order ?L env (q1 @ a # q2) ?st = Some (env', s')"
      and st': "st' = s'\<lparr>head := []\<rparr>"
      by auto
    from s' obtain e1 s1 where
      1: "apply_in_order ?L env q1 ?st = Some (e1, s1)" and
      2: "apply_in_order ?L e1 (a # q2) s1 = Some (env', s')"
      by (auto simp: apply_in_order_append split: option.splits)
    from apply_sample_data [OF 1] d0 obtain d1 where d1: "data e1 = Some d1" by auto
    from 2 obtain e2 s2 where
      3: "journal_process_action ?L e1 a s1 = Some (e2, s2)" and
      4: "apply_in_order ?L e2 q2 s2 = Some (env', s')"
      by (auto split: option.splits)
    have "e2 = spec_bgenv_set (calls s1) e1 (Some k) (type a) buf (strlen buf + 1)"
      using jpa_set [OF a(1,2,3), of ?L e1 s1] a(4) 3 by (simp add: sample_bgenv_set)
    with stored_set_same [OF d1, of "calls s1" k "type a" buf]
    obtain d2 where d2: "data e2 = Some d2" "stored d2 k = written k (type a) buf" by auto
    from apply_sample_other [OF 4 d2(1) q2 k] d2(2) st' show ?thesis by auto
  qed
  show ?thesis using A B C by blast
qed

theorem journal_fifo_witness:
  "map_option fst (journal_loop (sample_lib None None) (slot 0 2)
      (start\<lparr>head := [set_action ''foo'' ''a'', set_action ''foo'' ''b'',
                       set_action ''bar'' ''c'']\<rparr>)) =
     Some \<lparr>desc = 0, data = Some (zero_BG_ENVDATA
             \<lparr>revision := 2,
              userdata := [\<lparr>uv_key = ''foo'', uv_type = 0, uv_value = cbuf ''b''\<rparr>,
                           \<lparr>uv_key = ''bar'', uv_type = 0, uv_value = cbuf ''c''\<rparr>]\<rparr>)\<rparr> \<and>
   stored (zero_BG_ENVDATA
             \<lparr>revision := 2,
              userdata := [\<lparr>uv_key = ''foo'', uv_type = 0, uv_value = cbuf ''b''\<rparr>,
                           \<lparr>uv_key = ''bar'', uv_type = 0, uv_value = cbuf ''c''\<rparr>]\<rparr>) ''foo'' =
     Var 0 (cbuf ''b'')"
proof -
  let ?L = "sample_lib None None"
  let ?a = "set_action ''foo'' ''b''"
  let ?q1 = "[set_action ''foo'' ''a'']"
  let ?q2 = "[set_action ''bar'' ''c'']"
  let ?E = "\<lparr>desc = 0, data = Some (zero_BG_ENVDATA
              \<lparr>revision := 2,
               userdata := [\<lparr>uv_key = ''foo'', uv_type = 0, uv_value = cbuf ''b''\<rparr>,
                            \<lparr>uv_key = ''bar'', uv_type = 0, uv_value = cbuf ''c''\<rparr>]\<rparr>)\<rparr>"
  have run: "map_option fst (journal_loop ?L (slot 0 2) (start\<lparr>head := ?q1 @ ?a # ?q2\<rparr>)) = Some ?E"
    by code_simp
  then obtain S where S: "journal_loop ?L (slot 0 2) (start\<lparr>head := ?q1 @ ?a # ?q2\<rparr>) = Some (?E, S)"
    by (cases "journal_loop ?L (slot 0 2) (start\<lparr>head := ?q1 @ ?a # ?q2\<rparr>)") auto
  have h: "task ?a = ENV_TASK_SET \<and> key ?a = Some ''foo'' \<and> payload ?a = Some (cbuf ''b'') \<and>
           takeWhile (\<lambda>c. c \<noteq> NUL) ''foo'' \<noteq> ''ustate'' \<and>
           list_all (\<lambda>b. key b \<noteq> Some ''foo'') ?q2 \<and>
           data (slot 0 2) = Some (zero_BG_ENVDATA\<lparr>revision := 2\<rparr>)"
    by (simp add: set_action_def slot_def NUL_def)
  have t: "type ?a = 0" by (simp add: set_action_def)
  have w: "written ''foo'' 0 (cbuf ''b'') = Var 0 (cbuf ''b'')" by code_simp
  from journal_fifo [where st = start and L = ?L and env = "slot 0 2" and a = ?a
         and k = "''foo''" and buf = "cbuf ''b''" and ?q2.0 = ?q2
         and ?d0.0 = "zero_BG_ENVDATA\<lparr>revision := 2\<rparr>" and lo = None and ol = None
         and ?q1.0 = ?q1 and env' = ?E and st' = S, THEN conjunct2, THEN conjunct2]
       h S
  have "\<exists>d'. data ?E = Some d' \<and> stored d' ''foo'' = written ''foo'' (type ?a) (cbuf ''b'')"
    by blast
  then have "stored (the (data ?E)) ''foo'' = Var 0 (cbuf ''b'')"
    by (auto simp: t w)
  then show ?thesis using run by simp
qed

text \<open>
  Claim C3 as stated fails for the key "ustate": after \<open>-x ustate=1 -x ustate=x\<close> the
  later action is rejected, and the state stored at the end is that of the earlier one.
\<close>

theorem later_ustate_does_not_win:
  "set_uservars sample_macros ''ustate=1'' start =
     (0, start\<lparr>head := [(set_action ''ustate'' ''1'')\<lparr>type := 32\<rparr>]\<rparr>) \<and>
   set_uservars sample_macros ''ustate=x'' (start\<lparr>head := [(set_action ''ustate'' ''1'')\<lparr>type := 32\<rparr>]\<rparr>) =
     (0, start\<lparr>head := [(set_action ''ustate'' ''1'')\<lparr>type := 32\<rparr>,
                         (set_action ''ustate'' ''x'')\<lparr>type := 32\<rparr>]\<rparr>) \<and>
   journal_loop (sample_lib None None) (slot 0 2)
     (start\<lparr>head := [(set_action ''ustate'' ''1'')\<lparr>type := 32\<rparr>,
                      (set_action ''ustate'' ''x'')\<lparr>type := 32\<rparr>]\<rparr>) =
     Some (\<lparr>desc = 0, data = Some (zero_BG_ENVDATA\<lparr>revision := 2, ustate := 1\<rparr>)\<rparr>,
           start\<lparr>calls := [Call_ebg_env_setglobalstate (slot 0 2) 1],
                 err := [Invalid_value_for_ustate (cbuf ''x'')]\<rparr>)"
  by code_simp

lemma written_empty: "name \<notin> set field_keys \<Longrightarrow> written name ty (cbuf []) = Var ty [NUL]"
  by (simp add: written_def field_keys_def cbuf_def strlen_def)

lemma takeWhile_no_NUL: "NUL \<notin> set s \<Longrightarrow> takeWhile (\<lambda>c. c \<noteq> NUL) s = s"
  by (induction s) auto

text \<open>
  Claim C7.  A Delete action is one call of \<open>bgenv_set\<close> with the key and the type of
  the action, the empty string as data and the length 1.  With \<open>bgenv_set\<close> as the
  specification describes it: after a Set and a Delete of a user variable the variable
  is in the area, with the empty string as its value.
\<close>

theorem delete_writes_empty_string:
  "journal_process_action L env \<lparr>key = k, type = ty, payload = p, task = ENV_TASK_DEL\<rparr> st =
     Some (bgenv_set L (calls st) env k ty (cbuf []) 1,
           called (Call_bgenv_set env k ty (cbuf []) 1) st) \<and>
   cbuf [] = [NUL] \<and>
   (name \<notin> set field_keys \<and> NUL \<notin> set name \<and> data env = Some d \<longrightarrow>
      (\<exists>env' st' d'.
         journal_loop (sample_lib lo ol) env
           (st\<lparr>head := [set_action name ''x'', del_action name ty]\<rparr>) = Some (env', st') \<and>
         data env' = Some d' \<and>
         get_uservar name (userdata d') = Some \<lparr>uv_key = name, uv_type = ty, uv_value = [NUL]\<rparr> \<and>
         stored d' name = Var ty [NUL]))"
proof -
  let ?L = "sample_lib lo ol"
  have A: "journal_process_action L env \<lparr>key = k, type = ty, payload = p, task = ENV_TASK_DEL\<rparr> st =
     Some (bgenv_set L (calls st) env k ty (cbuf []) 1,
           called (Call_bgenv_set env k ty (cbuf []) 1) st)"
    by (simp add: journal_process_action_def)
  have B: "cbuf [] = [NUL]" by (simp add: cbuf_def)
  have C: "\<exists>env' st' d'.
         journal_loop ?L env (st\<lparr>head := [set_action name ''x'', del_action name ty]\<rparr>) = Some (env', st') \<and>
         data env' = Some d' \<and>
         get_uservar name (userdata d') = Some \<lparr>uv_key = name, uv_type = ty, uv_value = [NUL]\<rparr> \<and>
         stored d' name = Var ty [NUL]"
    if n: "name \<notin> set field_keys" "NUL \<notin> set name" and d: "data env = Some d"
  proof -
    let ?s = "set_action name ''x''"
    let ?st = "st\<lparr>head := [?s, del_action name ty]\<rparr>"
    have nu: "takeWhile (\<lambda>c. c \<noteq> NUL) name \<noteq> ''ustate''"
      using n by (simp add: takeWhile_no_NUL field_keys_def)
    have s: "task ?s = ENV_TASK_SET" "key ?s = Some name" "payload ?s = Some (cbuf ''x'')"
      by (simp_all add: set_action_def)
    define e1 where "e1 = spec_bgenv_set (calls ?st) env (Some name) (type ?s) (cbuf ''x'') (strlen (cbuf ''x'') + 1)"
    define s1 where "s1 = called (Call_bgenv_set env (Some name) (type ?s) (cbuf ''x'') (strlen (cbuf ''x'') + 1)) ?st"
    have 1: "journal_process_action ?L env ?s ?st = Some (e1, s1)"
      using jpa_set [OF s, of ?L env ?st] nu by (simp add: sample_bgenv_set e1_def s1_def)
    obtain d1 where d1: "data e1 = Some d1"
      using spec_bgenv_set_data [OF d, of "calls ?st" "Some name" "type ?s" "cbuf ''x''"
               "strlen (cbuf ''x'') + 1"]
      unfolding e1_def by blast
    define e2 where "e2 = spec_bgenv_set (calls (s1\<lparr>head := [del_action name ty]\<rparr>)) e1 (Some name) ty (cbuf []) 1"
    define s2 where "s2 = called (Call_bgenv_set e1 (Some name) ty (cbuf []) 1) (s1\<lparr>head := [del_action name ty]\<rparr>)"
    have 2: "journal_process_action ?L e1 (del_action name ty) (s1\<lparr>head := [del_action name ty]\<rparr>) = Some (e2, s2)"
      by (simp add: journal_process_action_def del_action_def sample_bgenv_set e2_def s2_def)
    have l: "strlen (cbuf []) + 1 = 1" by (simp add: strlen_def cbuf_def)
    from stored_set_same [OF d1, of "calls (s1\<lparr>head := [del_action name ty]\<rparr>)" name ty "cbuf []"]
    obtain d2 where d2: "data e2 = Some d2" "stored d2 name = written name ty (cbuf [])"
      unfolding l e2_def by auto
    have v: "stored d2 name = Var ty [NUL]" using d2(2) n(1) by (simp add: written_empty)
    have g: "get_uservar name (userdata d2) = Some \<lparr>uv_key = name, uv_type = ty, uv_value = [NUL]\<rparr>"
      using v n(1)
      by (cases "get_uservar name (userdata d2)")
         (auto simp: stored_def field_keys_def split: if_splits dest: get_uservar_key)
    have run: "journal_loop ?L env ?st = Some (e2, s2\<lparr>head := []\<rparr>)"
      using 1 2
      by (simp add: journal_loop_Cons [of ?st ?s "[del_action name ty]"]
                    journal_loop_Cons [of "s1\<lparr>head := [del_action name ty]\<rparr>" "del_action name ty" "[]"]
                    journal_loop_Nil)
    show ?thesis using run d2(1) g v by blast
  qed
  show ?thesis using A B C by blast
qed

theorem delete_writes_empty_string_witness:
  "map_option fst (journal_loop (sample_lib None None) (slot 0 2)
      (start\<lparr>head := [set_action ''foo'' ''x'', del_action ''foo'' (2 ^ 63)]\<rparr>)) =
     Some \<lparr>desc = 0, data = Some (zero_BG_ENVDATA
             \<lparr>revision := 2,
              userdata := [\<lparr>uv_key = ''foo'', uv_type = 2 ^ 63, uv_value = [NUL]\<rparr>]\<rparr>)\<rparr> \<and>
   (\<exists>env' st' d'.
      journal_loop (sample_lib None None) (slot 0 2)
        (start\<lparr>head := [set_action ''foo'' ''x'', del_action ''foo'' (2 ^ 63)]\<rparr>) = Some (env', st') \<and>
      data env' = Some d' \<and>
      get_uservar ''foo'' (userdata d') = Some \<lparr>uv_key = ''foo'', uv_type = 2 ^ 63, uv_value = [NUL]\<rparr>)"
proof -
  have h: "''foo'' \<notin> set field_keys \<and> NUL \<notin> set ''foo'' \<and>
           data (slot 0 2) = Some (zero_BG_ENVDATA\<lparr>revision := 2\<rparr>)"
    by (simp add: field_keys_def NUL_def slot_def)
  have run: "map_option fst (journal_loop (sample_lib None None) (slot 0 2)
      (start\<lparr>head := [set_action ''foo'' ''x'', del_action ''foo'' (2 ^ 63)]\<rparr>)) =
     Some \<lparr>desc = 0, data = Some (zero_BG_ENVDATA
             \<lparr>revision := 2,
              userdata := [\<lparr>uv_key = ''foo'', uv_type = 2 ^ 63, uv_value = [NUL]\<rparr>]\<rparr>)\<rparr>"
    by code_simp
  from delete_writes_empty_string [where name = "''foo''" and env = "slot 0 2"
         and d = "zero_BG_ENVDATA\<lparr>revision := 2\<rparr>" and lo = None and ol = None
         and st = start and ty = "2 ^ 63", THEN conjunct2, THEN conjunct2] h
  have "\<exists>env' st' d'.
      journal_loop (sample_lib None None) (slot 0 2)
        (start\<lparr>head := [set_action ''foo'' ''x'', del_action ''foo'' (2 ^ 63)]\<rparr>) = Some (env', st') \<and>
      data env' = Some d' \<and>
      get_uservar ''foo'' (userdata d') = Some \<lparr>uv_key = ''foo'', uv_type = 2 ^ 63, uv_value = [NUL]\<rparr> \<and>
      stored d' ''foo'' = Var (2 ^ 63) [NUL]"
    by blast
  then show ?thesis using run by blast
qed

section \<open>The option -s\<close>

lemma name_test:
  "NUL \<notin> set name \<Longrightarrow>
   (strncasecmp (cbuf s) (cbuf name) (strlen (cbuf name)) = 0) = ci_prefix name s"
  by (simp add: strlen_cbuf strncasecmp_cbuf ci_prefix_def)

lemma NUL_notin_names:
  "NUL \<notin> set ''OK''" "NUL \<notin> set ''INSTALLED''" "NUL \<notin> set ''TESTING''"
  "NUL \<notin> set ''FAILED''"
  by (simp_all add: NUL_def)

lemmas name_tests =
  name_test [OF NUL_notin_names(1)] name_test [OF NUL_notin_names(2)]
  name_test [OF NUL_notin_names(3)] name_test [OF NUL_notin_names(4)]

lemma str2ustate_text:
  assumes "USTATE_MIN M = 0" and "USTATE_MAX M = 4"
  shows "str2ustate M (Some s) = Some (ustate_of_text M s)"
proof -
  have 4: "str2ustate_loop M s 4 = Some (word_of_int (USTATE_UNKNOWN M))"
    using assms by (subst str2ustate_loop.simps) simp
  have 3: "str2ustate_loop M s 3 = (if ci_prefix ''FAILED'' s then Some 3 else str2ustate_loop M s 4)"
    using assms by (subst str2ustate_loop.simps) (simp add: ustatemap_def name_tests)
  have 2: "str2ustate_loop M s 2 = (if ci_prefix ''TESTING'' s then Some 2 else str2ustate_loop M s 3)"
    using assms by (subst str2ustate_loop.simps) (simp add: ustatemap_def name_tests)
  have 1: "str2ustate_loop M s (Suc 0) = (if ci_prefix ''INSTALLED'' s then Some 1 else str2ustate_loop M s 2)"
    using assms
    by (subst str2ustate_loop.simps) (simp add: ustatemap_def name_tests numeral_2_eq_2)
  have 0: "str2ustate_loop M s 0 = (if ci_prefix ''OK'' s then Some 0 else str2ustate_loop M s (Suc 0))"
    using assms by (subst str2ustate_loop.simps) (simp add: ustatemap_def name_tests)
  show ?thesis
    using assms by (simp add: str2ustate_def ustate_of_text_def 0 1 2 3 4)
qed

text \<open>
  The value of \<open>USTATE_MAX\<close> is not free: \<open>str2ustate\<close> tells "FAILED" from a text that
  matches no name only if its loop reaches index 3, and \<open>ustate2str\<close> stays inside the
  five entries of \<open>ustatemap\<close> only if the bound is below 5.
\<close>

lemma str2ustate_short_table:
  assumes "USTATE_MAX M \<le> 3"
      and "\<not> ci_prefix ''OK'' s" and "\<not> ci_prefix ''INSTALLED'' s" and "\<not> ci_prefix ''TESTING'' s"
  shows "str2ustate_loop M s 0 = Some (word_of_int (USTATE_UNKNOWN M))"
proof -
  have 3: "str2ustate_loop M s 3 = Some (word_of_int (USTATE_UNKNOWN M))"
    using assms by (subst str2ustate_loop.simps) simp
  have 2: "str2ustate_loop M s 2 = Some (word_of_int (USTATE_UNKNOWN M))"
    using assms by (subst str2ustate_loop.simps) (simp add: ustatemap_def name_tests 3)
  have 1: "str2ustate_loop M s (Suc 0) = Some (word_of_int (USTATE_UNKNOWN M))"
    using assms
    by (subst str2ustate_loop.simps) (simp add: ustatemap_def name_tests numeral_2_eq_2 2 [unfolded numeral_2_eq_2])
  show ?thesis
    using assms by (subst str2ustate_loop.simps) (simp add: ustatemap_def name_tests 1)
qed

lemma not_prefix_FAILED:
  "\<not> ci_prefix ''OK'' ''FAILED''" "\<not> ci_prefix ''INSTALLED'' ''FAILED''"
  "\<not> ci_prefix ''TESTING'' ''FAILED''"
  "\<not> ci_prefix ''OK'' ''''" "\<not> ci_prefix ''INSTALLED'' ''''" "\<not> ci_prefix ''TESTING'' ''''"
  by (simp_all add: ci_prefix_def NUL_def tolower_def)

lemma USTATE_MAX_forced:
  assumes "USTATE_MIN M = 0"
      and "str2ustate M (Some ''FAILED'') \<noteq> str2ustate M (Some [])"
      and "ustate2str M 5 \<noteq> None"
  shows "USTATE_MAX M = 4"
proof -
  have "3 < USTATE_MAX M"
  proof (rule ccontr)
    assume "\<not> 3 < USTATE_MAX M"
    then have m: "USTATE_MAX M \<le> 3" by simp
    have "str2ustate M (Some ''FAILED'') = str2ustate M (Some [])"
      using assms(1)
      by (simp add: str2ustate_def str2ustate_short_table [OF m] not_prefix_FAILED)
    with assms(2) show False by simp
  qed
  moreover have "USTATE_MAX M < 5"
  proof (rule ccontr)
    assume "\<not> USTATE_MAX M < 5"
    then have "ustate2str M 5 = None"
      by (simp add: ustate2str_def ustatemap_def)
    with assms(3) show False by simp
  qed
  ultimately show ?thesis by simp
qed

lemma USTATE_MAX_sample:
  "str2ustate sample_macros (Some ''FAILED'') \<noteq> str2ustate sample_macros (Some [])"
  "ustate2str sample_macros 5 \<noteq> None"
  by code_simp+

lemma parse_int_testing: "parse_int ''testing'' = (- 1, EINVAL)"
  by code_simp

lemma parse_int_2: "parse_int ''2'' = (2, 0)"
  by code_simp

lemma text_testing: "ustate_of_text M ''testing'' = 2"
  by (simp add: ustate_of_text_def ci_prefix_def tolower_def NUL_def)

lemma fmt_u_2: "fmt_u 2 = ''2''"
  by code_simp

lemma opt_s:
  "opt CHR ''s'' \<noteq> opt CHR ''k''" "opt CHR ''s'' \<noteq> opt CHR ''a''"
  by (simp_all add: opt_def)

lemma parse_s:
  "parse_setenv_opt M L (opt CHR ''s'') arg a st =
     (case parse_int arg of (i0, errno) \<Rightarrow>
           (case (if errno \<noteq> 0 then map_option uint (str2ustate M (Some arg)) else Some i0) of
              None \<Rightarrow> Crash
            | Some i \<Rightarrow>
                if errno \<noteq> 0 \<and> i = USTATE_UNKNOWN M
                then Return 1 (a, report Invalid_state_specified st)
                else if i < 0 \<or> i > 3
                then Return 1 (a, report Invalid_ustate_value_specified st)
                else
                  (case alloc st of (ok, st1) \<Rightarrow>
                     if \<not> ok then Return ENOMEM (a, st1)
                     else journal_created a
                            (journal_add_action ENV_TASK_SET (Some ''ustate'') 0
                               (Some (cbuf (fmt_u i))) (strlen (cbuf (fmt_u i)) + 1) st1))))"
  by (simp add: parse_setenv_opt_def opt_s)

lemma isdigit_not_space: "isdigit c \<Longrightarrow> \<not> isspace c \<and> c \<noteq> CHR ''-'' \<and> c \<noteq> CHR ''+'' \<and> c \<noteq> NUL"
  by (auto simp: isdigit_def isspace_def NUL_def)

lemma takeWhile_digits: "list_all isdigit s \<Longrightarrow> takeWhile isdigit s = s"
  by (induction s) auto

lemma decimal_nonneg_aux: "0 \<le> a \<Longrightarrow> list_all isdigit s \<Longrightarrow> 0 \<le> foldl (\<lambda>a c. 10 * a + digit_val c) a s"
proof (induction s arbitrary: a)
  case Nil
  then show ?case by simp
next
  case (Cons c s)
  have "0 \<le> digit_val c" using Cons.prems(2) by (auto simp: isdigit_def digit_val_def)
  then show ?case using Cons by simp
qed

lemma decimal_nonneg: "list_all isdigit s \<Longrightarrow> 0 \<le> decimal s"
  by (simp add: decimal_def decimal_nonneg_aux)

lemma strtol_digits:
  assumes "list_all isdigit arg" and "arg \<noteq> []"
  shows "strtol arg = (if decimal arg > LONG_MAX then (LONG_MAX, length arg, ERANGE)
                       else (decimal arg, length arg, 0))"
proof -
  obtain c cs where arg: "arg = c # cs" using assms(2) by (cases arg) auto
  have c: "isdigit c" using assms(1) arg by simp
  note n = isdigit_not_space [OF c]
  have 1: "takeWhile isspace arg = []" "dropWhile isspace arg = arg"
    using n arg by simp_all
  have 2: "takeWhile isdigit arg = arg" using assms(1) by (rule takeWhile_digits)
  have 3: "\<not> decimal arg < LONG_MIN"
    using decimal_nonneg [OF assms(1)] by (simp add: LONG_MIN_def)
  have 4: "hd arg \<noteq> CHR ''-''" "hd arg \<noteq> CHR ''+''" using n arg by simp_all
  show ?thesis
    unfolding strtol_def Let_def 1 using 3 4 assms(2) by (simp add: 2)
qed

lemma parse_int_digits:
  assumes "list_all isdigit arg" and "arg \<noteq> []"
  shows "parse_int arg = (if decimal arg > INT_MAX then (- 1, EINVAL) else (decimal arg, 0))"
  using decimal_nonneg [OF assms(1)] assms(2)
  by (auto simp: parse_int_def strtol_digits [OF assms] ERANGE_def INT_MAX_def INT_MIN_def LONG_MAX_def)

lemma tolower_digits: "\<forall>c\<in>set ''0123456789''. tolower c = c"
  by (simp add: tolower_def)

lemma tolower_digit: "isdigit c \<Longrightarrow> tolower c = c"
  using tolower_digits by (simp only: isdigit_def)

lemma ci_prefix_digit:
  assumes "isdigit c" and "name \<noteq> []" and "\<not> isdigit (tolower (hd name))"
  shows "\<not> ci_prefix name (c # cs)"
proof
  assume p: "ci_prefix name (c # cs)"
  obtain x xs where name: "name = x # xs" using assms(2) by (cases name) auto
  have low: "tolower c = c" using assms(1) by (rule tolower_digit)
  have "c \<noteq> NUL" using isdigit_not_space [OF assms(1)] by simp
  then have "takeWhile (\<lambda>c. c \<noteq> NUL) (c # cs) = c # takeWhile (\<lambda>c. c \<noteq> NUL) cs"
    by simp
  with p have "tolower c = tolower x"
    by (simp add: ci_prefix_def name)
  with low have "tolower x = c" by simp
  with assms(1,3) show False by (simp add: name)
qed

lemma text_digits:
  "isdigit c \<Longrightarrow> ustate_of_text M (c # cs) = word_of_int (USTATE_UNKNOWN M)"
proof -
  assume c: "isdigit c"
  have n: "\<not> isdigit (tolower (hd ''OK''))" "\<not> isdigit (tolower (hd ''INSTALLED''))"
     "\<not> isdigit (tolower (hd ''TESTING''))" "\<not> isdigit (tolower (hd ''FAILED''))"
    by (simp_all add: isdigit_def tolower_def)
  show ?thesis
    using ci_prefix_digit [OF c _ n(1), of cs] ci_prefix_digit [OF c _ n(2), of cs]
      ci_prefix_digit [OF c _ n(3), of cs] ci_prefix_digit [OF c _ n(4), of cs]
    by (simp add: ustate_of_text_def)
qed


text \<open>
  Claim C6.  With \<open>USTATE_MIN = 0\<close>, \<open>USTATE_MAX = 4\<close> and \<open>USTATE_UNKNOWN\<close> a byte value
  above 3: \<open>str2ustate\<close> is the case-insensitive prefix match against OK, INSTALLED,
  TESTING and FAILED, and any other text gives \<open>USTATE_UNKNOWN\<close>.  The option \<open>-s\<close>
  does the same for "testing" as for "2": it enqueues the Set of "ustate" to "2" (or
  returns \<open>ENOMEM\<close> when \<open>asprintf\<close> fails).  An argument that \<open>parse_int\<close> reads as a
  number outside 0..3, and every string of digits with a value above 3, is refused with
  return code 1 and an error message, the queue untouched.
\<close>

theorem ustate_option_parse:
  assumes "USTATE_MIN M = 0" and "USTATE_MAX M = 4"
      and "3 < USTATE_UNKNOWN M" and "USTATE_UNKNOWN M < 256"
  shows "str2ustate M (Some s) = Some (ustate_of_text M s) \<and>
         parse_setenv_opt M L (opt CHR ''s'') ''testing'' a st =
           parse_setenv_opt M L (opt CHR ''s'') ''2'' a st \<and>
         parse_setenv_opt M L (opt CHR ''s'') ''2'' a st =
           (if fst (alloc st)
            then journal_created a
                   (journal_add_action ENV_TASK_SET (Some ''ustate'') 0 (Some (cbuf ''2'')) 2
                      (snd (alloc st)))
            else Return ENOMEM (a, snd (alloc st))) \<and>
         (parse_int arg = (i, 0) \<and> (i < 0 \<or> 3 < i) \<longrightarrow>
            parse_setenv_opt M L (opt CHR ''s'') arg a st =
              Return 1 (a, report Invalid_ustate_value_specified st)) \<and>
         (arg \<noteq> [] \<and> list_all isdigit arg \<and> 3 < decimal arg \<longrightarrow>
            parse_setenv_opt M L (opt CHR ''s'') arg a st =
              Return 1 (a, report (if decimal arg > INT_MAX then Invalid_state_specified
                                   else Invalid_ustate_value_specified) st))"
proof -
  have u: "uint (word_of_int (USTATE_UNKNOWN M) :: 8 word) = USTATE_UNKNOWN M"
    using assms(3,4) by (simp add: uint_word_of_int take_bit_eq_mod)
  have A: "str2ustate M (Some s) = Some (ustate_of_text M s)" for s
    using assms(1,2) by (rule str2ustate_text)
  have l2: "Suc (strlen (cbuf ''2'')) = 2" by code_simp
  have two: "parse_setenv_opt M L (opt CHR ''s'') ''2'' a st =
           (if fst (alloc st)
            then journal_created a
                   (journal_add_action ENV_TASK_SET (Some ''ustate'') 0 (Some (cbuf ''2'')) 2
                      (snd (alloc st)))
            else Return ENOMEM (a, snd (alloc st)))"
    by (simp add: parse_s parse_int_2 fmt_u_2 l2 split: prod.splits)
  have tst: "parse_setenv_opt M L (opt CHR ''s'') ''testing'' a st =
           parse_setenv_opt M L (opt CHR ''s'') ''2'' a st"
    unfolding two using assms(3)
    by (simp add: parse_s parse_int_testing A text_testing EINVAL_def fmt_u_2 l2 split: prod.splits)
  have D: "parse_setenv_opt M L (opt CHR ''s'') arg a st =
              Return 1 (a, report Invalid_ustate_value_specified st)"
    if "parse_int arg = (i, 0)" "i < 0 \<or> 3 < i"
    using that by (auto simp: parse_s)
  have E: "parse_setenv_opt M L (opt CHR ''s'') arg a st =
              Return 1 (a, report (if decimal arg > INT_MAX then Invalid_state_specified
                                   else Invalid_ustate_value_specified) st)"
    if n: "arg \<noteq> []" and d: "list_all isdigit arg" and v: "3 < decimal arg"
  proof -
    obtain c cs where arg: "arg = c # cs" using n by (cases arg) auto
    have c: "isdigit c" using d arg by simp
    have t: "str2ustate M (Some arg) = Some (word_of_int (USTATE_UNKNOWN M))"
      unfolding A arg using c by (simp add: text_digits)
    show ?thesis
      using v u by (simp add: parse_s parse_int_digits [OF d n] t EINVAL_def)
  qed
  show ?thesis using A two tst D E by blast
qed

theorem ustate_option_parse_witness:
  "str2ustate sample_macros (Some ''Failed'') = Some 3 \<and>
   str2ustate sample_macros (Some ''TEST'') = Some 4 \<and>
   parse_setenv_opt sample_macros (sample_lib None None) (opt CHR ''s'') ''testing'' zero_arguments start =
     Return 0 (zero_arguments, start\<lparr>head := [set_action ''ustate'' ''2'']\<rparr>) \<and>
   parse_setenv_opt sample_macros (sample_lib None None) (opt CHR ''s'') ''2'' zero_arguments start =
     Return 0 (zero_arguments, start\<lparr>head := [set_action ''ustate'' ''2'']\<rparr>) \<and>
   parse_setenv_opt sample_macros (sample_lib None None) (opt CHR ''s'') ''99'' zero_arguments start =
     Return 1 (zero_arguments, report Invalid_ustate_value_specified start)"
proof -
  let ?M = sample_macros and ?L = "sample_lib None None"
  have m: "USTATE_MIN ?M = 0" "USTATE_MAX ?M = 4" "3 < USTATE_UNKNOWN ?M" "USTATE_UNKNOWN ?M < 256"
    by (simp_all add: sample_macros_def)
  note t = ustate_option_parse [OF m, where L = ?L and a = zero_arguments and st = start]
  have f: "ustate_of_text ?M ''Failed'' = 3" "ustate_of_text ?M ''TEST'' = 4"
    by code_simp+
  have 1: "str2ustate ?M (Some ''Failed'') = Some 3" "str2ustate ?M (Some ''TEST'') = Some 4"
    using t [where s = "''Failed''"] t [where s = "''TEST''"] f by simp_all
  have e: "(if fst (alloc start)
            then journal_created zero_arguments
                   (journal_add_action ENV_TASK_SET (Some ''ustate'') 0 (Some (cbuf ''2'')) 2
                      (snd (alloc start)))
            else Return ENOMEM (zero_arguments, snd (alloc start))) =
           Return 0 (zero_arguments, start\<lparr>head := [set_action ''ustate'' ''2'']\<rparr>)"
    by code_simp
  have 2: "parse_setenv_opt ?M ?L (opt CHR ''s'') ''2'' zero_arguments start =
             Return 0 (zero_arguments, start\<lparr>head := [set_action ''ustate'' ''2'']\<rparr>)"
    using t [THEN conjunct2, THEN conjunct2, THEN conjunct1] e by simp
  have 3: "parse_setenv_opt ?M ?L (opt CHR ''s'') ''testing'' zero_arguments start =
             Return 0 (zero_arguments, start\<lparr>head := [set_action ''ustate'' ''2'']\<rparr>)"
    using t [THEN conjunct2, THEN conjunct1] 2 by simp
  have p: "parse_int ''99'' = (99, 0)" by code_simp
  have 4: "parse_setenv_opt ?M ?L (opt CHR ''s'') ''99'' zero_arguments start =
             Return 1 (zero_arguments, report Invalid_ustate_value_specified start)"
    using t [where arg = "''99''" and i = 99, THEN conjunct2, THEN conjunct2, THEN conjunct2,
             THEN conjunct1] p by simp
  show ?thesis using 1 2 3 4 by simp
qed

section \<open>Option parsing and what it calls\<close>

lemma opc_same: "calls st' = calls st \<Longrightarrow> only_parse_calls st st'"
  by (simp add: only_parse_calls_def)

lemma opc_one: "calls st' = calls st @ [c] \<Longrightarrow> parse_time_call c \<Longrightarrow> only_parse_calls st st'"
  by (simp add: only_parse_calls_def)

lemma opc_trans: "only_parse_calls s1 s2 \<Longrightarrow> only_parse_calls s2 s3 \<Longrightarrow> only_parse_calls s1 s3"
proof -
  assume a: "only_parse_calls s1 s2" and b: "only_parse_calls s2 s3"
  obtain c1 where c1: "calls s2 = calls s1 @ c1" "list_all parse_time_call c1"
    using a by (metis append_take_drop_id only_parse_calls_def)
  obtain c2 where c2: "calls s3 = calls s2 @ c2" "list_all parse_time_call c2"
    using b by (metis append_take_drop_id only_parse_calls_def)
  show ?thesis using c1 c2 by (simp add: only_parse_calls_def)
qed

lemma calls_alloc: "calls (snd (alloc st)) = calls st"
  by (simp add: alloc_def split: list.splits)

lemma calls_report: "calls (report m st) = calls st"
  by (simp add: report_def)

lemma calls_journal_add_action: "calls (snd (journal_add_action tsk k ty d n st)) = calls st"
  using journal_add_action_cases [of tsk k ty d n st "fst (journal_add_action tsk k ty d n st)"
          "snd (journal_add_action tsk k ty d n st)"]
  by simp

lemma calls_set_uservars: "calls (snd (set_uservars M arg st)) = calls st"
  by (simp add: set_uservars_def calls_journal_add_action split: prod.splits option.splits)

lemma rpc_if:
  "(c \<Longrightarrow> res_parse_calls st x) \<Longrightarrow> (\<not> c \<Longrightarrow> res_parse_calls st y) \<Longrightarrow>
   res_parse_calls st (if c then x else y)"
  by simp

lemma rpc_prod:
  "(\<And>u v. p = (u, v) \<Longrightarrow> res_parse_calls st (f u v)) \<Longrightarrow>
   res_parse_calls st (case p of (u, v) \<Rightarrow> f u v)"
  by (cases p) simp

lemma rpc_option:
  "(x = None \<Longrightarrow> res_parse_calls st n) \<Longrightarrow> (\<And>v. x = Some v \<Longrightarrow> res_parse_calls st (s v)) \<Longrightarrow>
   res_parse_calls st (case x of None \<Rightarrow> n | Some v \<Rightarrow> s v)"
  by (cases x) simp_all

lemma rpc_let: "res_parse_calls st (f x) \<Longrightarrow> res_parse_calls st (Let x f)"
  by simp

lemma rpc_crash: "res_parse_calls st Crash"
  by (simp add: res_parse_calls_def)

lemma rpc_return: "only_parse_calls st s \<Longrightarrow> res_parse_calls st (Return e (a, s))"
  by (simp add: res_parse_calls_def)

lemma rpc_exit: "only_parse_calls st s \<Longrightarrow> res_parse_calls st (Exit c (a, s))"
  by (simp add: res_parse_calls_def)

lemma rpc_journal_created:
  "calls (snd r) = calls st \<Longrightarrow> res_parse_calls st (journal_created a r)"
  by (cases r) (simp add: journal_created_def res_parse_calls_def opc_same calls_report)

lemma rpc_common:
  "res_parse_calls st (parse_common_opt M L k arg cm a st)"
  unfolding parse_common_opt_def
  by (intro rpc_if rpc_prod rpc_let rpc_return rpc_exit)
     (auto simp: only_parse_calls_def called_def report_def parse_time_call_def
           dest!: alloc_frame)

lemma rpc_lift:
  "res_parse_calls st r \<Longrightarrow>
   res_parse_calls st (case r of
           Return e (c, st1) \<Rightarrow> Return e (f c, st1)
         | Exit code (c, st1) \<Rightarrow> Exit code (f c, st1)
         | Crash \<Rightarrow> Crash)"
  by (auto simp: res_parse_calls_def split: res.splits)

lemma rpc_setenv:
  "res_parse_calls st (parse_setenv_opt M L k arg a st)"
  unfolding parse_setenv_opt_def
  by (intro rpc_if rpc_prod rpc_option rpc_crash rpc_return rpc_exit rpc_journal_created
        rpc_lift rpc_common)
     (auto simp: only_parse_calls_def calls_report calls_journal_add_action calls_set_uservars
           dest!: alloc_frame)

lemma opc_refl: "only_parse_calls st st"
  by (simp add: only_parse_calls_def)

lemma argp_parse_calls:
  assumes "\<And>k arg a st. res_parse_calls st (P k arg a st)"
  shows "res_parse_calls st (argp_parse P os a st)"
proof (induction os arbitrary: a st)
  case Nil
  then show ?case by (simp add: res_parse_calls_def opc_refl)
next
  case (Cons o1 os)
  obtain k arg where o1: "o1 = (k, arg)" by (cases o1)
  show ?case
  proof (cases "P k arg a st")
    case (Return e x)
    obtain a1 st1 where x: "x = (a1, st1)" by (cases x)
    have 1: "only_parse_calls st st1"
      using assms [of st k arg a] Return x by (simp add: res_parse_calls_def)
    have 2: "res_parse_calls st1 (argp_parse P os a1 st1)" by (rule Cons.IH)
    have 3: "res_parse_calls st (argp_parse P os a1 st1)"
      using 1 2 by (auto simp: res_parse_calls_def split: res.splits intro: opc_trans)
    show ?thesis
      using Return x 1 3 by (simp add: o1 res_parse_calls_def)
  next
    case (Exit c x)
    then show ?thesis
      using assms [of st k arg a] by (simp add: o1 res_parse_calls_def)
  next
    case Crash
    then show ?thesis by (simp add: o1 res_parse_calls_def)
  qed
qed

lemma argp_parse_append:
  "argp_parse P pre a st = Return 0 (a1, st1) \<Longrightarrow>
   argp_parse P (pre @ post) a st = argp_parse P post a1 st1"
proof (induction pre arbitrary: a st)
  case Nil
  then show ?case by simp
next
  case (Cons o1 pre)
  obtain k arg where o1: "o1 = (k, arg)" by (cases o1)
  show ?case
  proof (cases "P k arg a st")
    case (Return e x)
    obtain a2 st2 where x: "x = (a2, st2)" by (cases x)
    show ?thesis
    proof (cases "e = 0")
      case True
      then show ?thesis using Cons.prems Cons.IH [of a2 st2] Return x by (simp add: o1)
    next
      case False
      then show ?thesis using Cons.prems Return x by (simp add: o1 split: if_splits)
    qed
  next
    case (Exit c x)
    then show ?thesis using Cons.prems by (simp add: o1)
  next
    case Crash
    then show ?thesis using Cons.prems by (simp add: o1)
  qed
qed

lemma opt_p:
  "opt CHR ''p'' \<noteq> opt CHR ''f''" "opt CHR ''p'' \<noteq> opt CHR ''k''" "opt CHR ''p'' \<noteq> opt CHR ''a''"
  "opt CHR ''p'' \<noteq> opt CHR ''s''" "opt CHR ''p'' \<noteq> opt CHR ''i''" "opt CHR ''p'' \<noteq> opt CHR ''r''"
  "opt CHR ''p'' \<noteq> opt CHR ''w''" "opt CHR ''p'' \<noteq> opt CHR ''c''" "opt CHR ''p'' \<noteq> opt CHR ''u''"
  "opt CHR ''p'' \<noteq> opt CHR ''x''" "opt CHR ''p'' \<noteq> opt CHR ''P''" "opt CHR ''p'' \<noteq> ARGP_KEY_ARG"
  by (simp_all add: opt_def ARGP_KEY_ARG_def)

lemma common_p:
  "parse_common_opt M L (opt CHR ''p'') arg cm c st =
     (case parse_int arg of (i, errno) \<Rightarrow>
        if errno = 0 \<and> 0 \<le> i \<and> i < ENV_NUM_CONFIG_PARTS M
        then Return 0 (c\<lparr>which_part := i, part_specified := True\<rparr>, st)
        else Return 1 (c, report (if errno \<noteq> 0 then Invalid_number_specified_for_p
                                  else Selected_partition_out_of_range) st))"
  by (auto simp: parse_common_opt_def opt_p split: prod.splits)

lemma setenv_p:
  "parse_setenv_opt M L (opt CHR ''p'') arg a st =
     (case parse_int arg of (i, errno) \<Rightarrow>
        if errno = 0 \<and> 0 \<le> i \<and> i < ENV_NUM_CONFIG_PARTS M
        then Return 0 (a\<lparr>common := (common a)\<lparr>which_part := i, part_specified := True\<rparr>\<rparr>, st)
        else Return 1 (a, report (if errno \<noteq> 0 then Invalid_number_specified_for_p
                                  else Selected_partition_out_of_range) st))"
  by (simp add: parse_setenv_opt_def opt_p common_p split: prod.splits)

lemma takeWhile_short: "\<not> list_all P xs \<Longrightarrow> length (takeWhile P xs) < length xs"
  by (induction xs) auto

lemma length_ws: "length arg = length (takeWhile isspace arg) + length (dropWhile isspace arg)"
  by (metis length_append takeWhile_dropWhile_id)

lemma strtol_decimal_text:
  assumes "strtol arg = (v, used, errno)"
  shows "(case decimal_text arg of
            None \<Rightarrow> used = 0 \<or> used < length arg
          | Some n \<Rightarrow> used = length arg \<and> used \<noteq> 0 \<and>
                (if n > LONG_MAX then v = LONG_MAX \<and> errno = ERANGE
                 else if n < LONG_MIN then v = LONG_MIN \<and> errno = ERANGE
                 else v = n \<and> errno = 0))"
proof (cases "dropWhile isspace arg")
  case Nil
  show ?thesis using assms unfolding strtol_def decimal_text_def Let_def Nil by simp
next
  case (Cons c t)
  define r1 where "r1 = (if c = CHR ''-'' \<or> c = CHR ''+'' then t else c # t)"
  define sg :: nat where "sg = (if c = CHR ''-'' \<or> c = CHR ''+'' then 1 else 0)"
  define ws where "ws = length (takeWhile isspace arg)"
  define sv where "sv = (\<lambda>ds. if c = CHR ''-'' then - decimal ds else decimal ds)"
  have len: "length arg = ws + sg + length r1"
    using length_ws [of arg] Cons by (simp add: r1_def sg_def ws_def)
  have S: "strtol arg =
             (if takeWhile isdigit r1 = [] then (0, 0, 0)
              else if sv (takeWhile isdigit r1) > LONG_MAX
                then (LONG_MAX, ws + sg + length (takeWhile isdigit r1), ERANGE)
              else if sv (takeWhile isdigit r1) < LONG_MIN
                then (LONG_MIN, ws + sg + length (takeWhile isdigit r1), ERANGE)
              else (sv (takeWhile isdigit r1), ws + sg + length (takeWhile isdigit r1), 0))"
    using Cons by (simp add: strtol_def Let_def r1_def sg_def ws_def sv_def)
  have D: "decimal_text arg = (if r1 \<noteq> [] \<and> list_all isdigit r1 then Some (sv r1) else None)"
    using Cons by (simp add: decimal_text_def r1_def sv_def)
  show ?thesis
  proof (cases "r1 \<noteq> [] \<and> list_all isdigit r1")
    case True
    then have ds: "takeWhile isdigit r1 = r1" by (simp add: list_all_iff)
    have "(if r1 = [] then (0, 0, 0)
              else if sv r1 > LONG_MAX then (LONG_MAX, ws + sg + length r1, ERANGE)
              else if sv r1 < LONG_MIN then (LONG_MIN, ws + sg + length r1, ERANGE)
              else (sv r1, ws + sg + length r1, 0)) = (v, used, errno)"
      using assms unfolding S ds .
    then show ?thesis
      using True by (auto simp: D len split: if_splits)
  next
    case False
    show ?thesis
    proof (cases "takeWhile isdigit r1 = []")
      case True
      then show ?thesis
        using assms False by (simp add: S D)
    next
      case nonempty: False
      then have "r1 \<noteq> []" by auto
      then have "\<not> list_all isdigit r1" using False by simp
      then have "length (takeWhile isdigit r1) < length r1" by (rule takeWhile_short)
      then show ?thesis
        using assms False nonempty by (auto simp: S D len split: if_splits)
    qed
  qed
qed

lemma EINVAL_nonzero: "EINVAL \<noteq> 0"
  by (simp add: EINVAL_def)

lemma parse_int_decimal_text:
  "parse_int arg =
     (case decimal_text arg of
        None \<Rightarrow> (- 1, EINVAL)
      | Some n \<Rightarrow> if INT_MIN \<le> n \<and> n \<le> INT_MAX then (n, 0) else (- 1, EINVAL))"
proof -
  obtain v used errno where s: "strtol arg = (v, used, errno)" by (cases "strtol arg") auto
  show ?thesis
    using strtol_decimal_text [OF s] s
    by (auto simp: parse_int_def INT_MIN_def INT_MAX_def LONG_MIN_def LONG_MAX_def ERANGE_def
          split: option.splits if_splits)
qed


lemma p_refused_run:
  assumes argc: "2 \<le> argc"
      and pre: "argp_parse (parse_setenv_opt M L) pre zero_arguments (st\<lparr>head := []\<rparr>) = Return 0 (a1, st1)"
      and p: "parse_int arg = (i, errno)"
      and bad: "\<not> (errno = 0 \<and> 0 \<le> i \<and> i < ENV_NUM_CONFIG_PARTS M)"
  shows "bg_setenv M L argc (pre @ (opt CHR ''p'', arg) # post) st =
        Some (Returned 1, report (if errno \<noteq> 0 then Invalid_number_specified_for_p
                                  else Selected_partition_out_of_range) st1) \<and>
      only_parse_calls st st1"
proof -
  have 1: "argp_parse (parse_setenv_opt M L) (pre @ (opt CHR ''p'', arg) # post) zero_arguments
             (st\<lparr>head := []\<rparr>) =
           Return 1 (a1, report (if errno \<noteq> 0 then Invalid_number_specified_for_p
                                else Selected_partition_out_of_range) st1)"
    using p bad by (auto simp: argp_parse_append [OF pre] setenv_p ARGP_ERR_UNKNOWN_def)
  have 2: "only_parse_calls (st\<lparr>head := []\<rparr>) st1"
    using argp_parse_calls [of "parse_setenv_opt M L" "st\<lparr>head := []\<rparr>" pre zero_arguments,
            OF rpc_setenv] pre
    by (simp add: res_parse_calls_def)
  show ?thesis
    using argc 1 2 by (simp add: bg_setenv_def only_parse_calls_def)
qed

text \<open>
  Claim C8.  \<open>parse_int\<close> yields a number exactly for a text that denotes a decimal
  integer in the range of \<open>int\<close>; for every other text (empty, no digit, characters
  after the digits, a value outside \<open>int\<close>) it sets \<open>EINVAL\<close>.  So the option \<open>-p\<close> is
  accepted (return code 0, the partition recorded) if and only if its argument denotes
  a number \<open>i\<close> with \<open>0 \<le> i < ENV_NUM_CONFIG_PARTS\<close>; otherwise an error is reported
  and the parser returns 1 with nothing else changed.  In \<open>bg_setenv\<close>, when the
  options before such a \<open>-p\<close> were parsed without error, the run ends there with
  return code 1: the only calls made are those of option parsing, whatever options
  follow.
\<close>

theorem partition_index_checked:
  "parse_int arg =
     (case decimal_text arg of
        None \<Rightarrow> (- 1, EINVAL)
      | Some n \<Rightarrow> if INT_MIN \<le> n \<and> n \<le> INT_MAX then (n, 0) else (- 1, EINVAL)) \<and>
   parse_common_opt M L (opt CHR ''p'') arg cm c st =
     (case decimal_text arg of
        None \<Rightarrow> Return 1 (c, report Invalid_number_specified_for_p st)
      | Some n \<Rightarrow>
          if n < INT_MIN \<or> INT_MAX < n then Return 1 (c, report Invalid_number_specified_for_p st)
          else if 0 \<le> n \<and> n < ENV_NUM_CONFIG_PARTS M
          then Return 0 (c\<lparr>which_part := n, part_specified := True\<rparr>, st)
          else Return 1 (c, report Selected_partition_out_of_range st)) \<and>
   (2 \<le> argc \<and>
    argp_parse (parse_setenv_opt M L) pre zero_arguments (st\<lparr>head := []\<rparr>) = Return 0 (a1, st1) \<and>
    (case decimal_text arg of
       None \<Rightarrow> True
     | Some n \<Rightarrow> \<not> (0 \<le> n \<and> n < ENV_NUM_CONFIG_PARTS M \<and> n \<le> INT_MAX)) \<longrightarrow>
      bg_setenv M L argc (pre @ (opt CHR ''p'', arg) # post) st =
        Some (Returned 1,
              report (case decimal_text arg of
                        None \<Rightarrow> Invalid_number_specified_for_p
                      | Some n \<Rightarrow> if n < INT_MIN \<or> INT_MAX < n then Invalid_number_specified_for_p
                                  else Selected_partition_out_of_range) st1) \<and>
      only_parse_calls st st1)"
proof -
  note P = parse_int_decimal_text [of arg]
  have A: "parse_common_opt M L (opt CHR ''p'') arg cm c st =
     (case decimal_text arg of
        None \<Rightarrow> Return 1 (c, report Invalid_number_specified_for_p st)
      | Some n \<Rightarrow>
          if n < INT_MIN \<or> INT_MAX < n then Return 1 (c, report Invalid_number_specified_for_p st)
          else if 0 \<le> n \<and> n < ENV_NUM_CONFIG_PARTS M
          then Return 0 (c\<lparr>which_part := n, part_specified := True\<rparr>, st)
          else Return 1 (c, report Selected_partition_out_of_range st))"
    by (auto simp: common_p P EINVAL_nonzero split: option.splits)
  have B: "bg_setenv M L argc (pre @ (opt CHR ''p'', arg) # post) st =
        Some (Returned 1,
              report (case decimal_text arg of
                        None \<Rightarrow> Invalid_number_specified_for_p
                      | Some n \<Rightarrow> if n < INT_MIN \<or> INT_MAX < n then Invalid_number_specified_for_p
                                  else Selected_partition_out_of_range) st1) \<and>
      only_parse_calls st st1"
    if argc: "2 \<le> argc"
      and pre: "argp_parse (parse_setenv_opt M L) pre zero_arguments (st\<lparr>head := []\<rparr>) = Return 0 (a1, st1)"
      and bad: "case decimal_text arg of
                  None \<Rightarrow> True
                | Some n \<Rightarrow> \<not> (0 \<le> n \<and> n < ENV_NUM_CONFIG_PARTS M \<and> n \<le> INT_MAX)"
  proof (cases "decimal_text arg")
    case None
    then have p: "parse_int arg = (- 1, EINVAL)" by (simp add: P)
    show ?thesis
      using p_refused_run [OF argc pre p, of post] None by (simp add: EINVAL_nonzero)
  next
    case (Some n)
    show ?thesis
    proof (cases "INT_MIN \<le> n \<and> n \<le> INT_MAX")
      case True
      then have p: "parse_int arg = (n, 0)" by (simp add: P Some)
      show ?thesis
        using p_refused_run [OF argc pre p, of post] Some True bad by auto
    next
      case False
      then have p: "parse_int arg = (- 1, EINVAL)" by (auto simp: P Some)
      show ?thesis
        using p_refused_run [OF argc pre p, of post] Some False by (auto simp: EINVAL_nonzero)
    qed
  qed
  show ?thesis using P A B by blast
qed

theorem partition_index_checked_witness:
  "parse_common_opt sample_macros (sample_lib None None) (opt CHR ''p'') ''1'' True
      (common zero_arguments) start =
     Return 0 ((common zero_arguments)\<lparr>which_part := 1, part_specified := True\<rparr>, start) \<and>
   bg_setenv sample_macros (sample_lib None None) 5
      [(opt CHR ''v'', []), (opt CHR ''p'', ''7''), (opt CHR ''k'', ''vmlinuz'')] start =
     Some (Returned 1, start\<lparr>calls := [Call_bgenv_be_verbose True],
                              err := [Selected_partition_out_of_range]\<rparr>) \<and>
   bg_setenv sample_macros (sample_lib None None) 3 [(opt CHR ''p'', ''1x'')] start =
     Some (Returned 1, start\<lparr>err := [Invalid_number_specified_for_p]\<rparr>) \<and>
   bg_setenv sample_macros (sample_lib None None) 3 [(opt CHR ''p'', [])] start =
     Some (Returned 1, start\<lparr>err := [Invalid_number_specified_for_p]\<rparr>) \<and>
   bg_setenv sample_macros (sample_lib None None) 3 [(opt CHR ''p'', ''4294967296'')] start =
     Some (Returned 1, start\<lparr>err := [Invalid_number_specified_for_p]\<rparr>) \<and>
   bg_setenv sample_macros (sample_lib None None) 3 [(opt CHR ''p'', ''-1'')] start =
     Some (Returned 1, start\<lparr>err := [Selected_partition_out_of_range]\<rparr>)"
proof -
  let ?M = sample_macros and ?L = "sample_lib None None"
  note t = partition_index_checked [where M = ?M and L = ?L and st = start]
  have d: "decimal_text ''1'' = Some 1" "decimal_text ''7'' = Some 7" "decimal_text ''1x'' = None"
    "decimal_text [] = None" "decimal_text ''4294967296'' = Some 4294967296"
    "decimal_text ''-1'' = Some (- 1)"
    by code_simp+
  have n: "ENV_NUM_CONFIG_PARTS ?M = 2" by (simp add: sample_macros_def)
  have a: "parse_common_opt ?M ?L (opt CHR ''p'') ''1'' True (common zero_arguments) start =
     Return 0 ((common zero_arguments)\<lparr>which_part := 1, part_specified := True\<rparr>, start)"
    using t [where arg = "''1''" and cm = True and c = "common zero_arguments",
             THEN conjunct2, THEN conjunct1]
    by (simp add: d n INT_MIN_def INT_MAX_def)
  have pre: "argp_parse (parse_setenv_opt ?M ?L) [(opt CHR ''v'', [])] zero_arguments
               (start\<lparr>head := []\<rparr>) =
             Return 0 (zero_arguments\<lparr>common := (common zero_arguments)\<lparr>verbosity := True\<rparr>\<rparr>,
                       start\<lparr>calls := [Call_bgenv_be_verbose True]\<rparr>)"
    by code_simp
  have b: "bg_setenv ?M ?L 5 [(opt CHR ''v'', []), (opt CHR ''p'', ''7''), (opt CHR ''k'', ''vmlinuz'')] start =
     Some (Returned 1, start\<lparr>calls := [Call_bgenv_be_verbose True],
                              err := [Selected_partition_out_of_range]\<rparr>)"
    using t [where argc = 5 and pre = "[(opt CHR ''v'', [])]" and arg = "''7''"
               and post = "[(opt CHR ''k'', ''vmlinuz'')]", THEN conjunct2, THEN conjunct2] pre
    by (simp add: d n report_def start_def INT_MIN_def INT_MAX_def)
  have pre0: "argp_parse (parse_setenv_opt ?M ?L) [] zero_arguments (start\<lparr>head := []\<rparr>) =
             Return 0 (zero_arguments, start)"
    by (simp add: start_def)
  have c: "bg_setenv ?M ?L 3 [(opt CHR ''p'', ''1x'')] start =
     Some (Returned 1, start\<lparr>err := [Invalid_number_specified_for_p]\<rparr>)"
    using t [where argc = 3 and pre = "[]" and arg = "''1x''" and post = "[]",
             THEN conjunct2, THEN conjunct2] pre0
    by (simp add: d report_def start_def)
  have e: "bg_setenv ?M ?L 3 [(opt CHR ''p'', [])] start =
     Some (Returned 1, start\<lparr>err := [Invalid_number_specified_for_p]\<rparr>)"
    using t [where argc = 3 and pre = "[]" and arg = "[]" and post = "[]",
             THEN conjunct2, THEN conjunct2] pre0
    by (simp add: d report_def start_def)
  have f: "bg_setenv ?M ?L 3 [(opt CHR ''p'', ''4294967296'')] start =
     Some (Returned 1, start\<lparr>err := [Invalid_number_specified_for_p]\<rparr>)"
    using t [where argc = 3 and pre = "[]" and arg = "''4294967296''" and post = "[]",
             THEN conjunct2, THEN conjunct2] pre0
    by (simp add: d report_def start_def INT_MIN_def INT_MAX_def)
  have g: "bg_setenv ?M ?L 3 [(opt CHR ''p'', ''-1'')] start =
     Some (Returned 1, start\<lparr>err := [Selected_partition_out_of_range]\<rparr>)"
    using t [where argc = 3 and pre = "[]" and arg = "''-1''" and post = "[]",
             THEN conjunct2, THEN conjunct2] pre0
    by (simp add: d report_def start_def INT_MIN_def INT_MAX_def)
  show ?thesis using a b c e f g by simp
qed

section \<open>The checksum\<close>

lemma wo_report: "writes_ok L (report m st) = writes_ok L st"
  by (simp add: writes_ok_def report_def)

lemma wo_called: "writes_ok L (called c st) = (writes_ok L st \<and> write_ok L c)"
  by (simp add: writes_ok_def called_def)

lemma wo_head: "writes_ok L (st\<lparr>head := h\<rparr>) = writes_ok L st"
  by (simp add: writes_ok_def)

lemma wo_calls: "calls st' = calls st \<Longrightarrow> writes_ok L st' = writes_ok L st"
  by (simp add: writes_ok_def)

lemma wo_parse: "only_parse_calls st st' \<Longrightarrow> writes_ok L st \<Longrightarrow> writes_ok L st'"
proof -
  assume a: "only_parse_calls st st'" and b: "writes_ok L st"
  obtain cs where cs: "calls st' = calls st @ cs" "list_all parse_time_call cs"
    using a by (metis append_take_drop_id only_parse_calls_def)
  have "list_all (write_ok L) cs"
    using cs(2) by (induction cs) (auto simp: parse_time_call_def write_ok_def split: call.splits)
  then show ?thesis using b cs(1) by (simp add: writes_ok_def)
qed

lemma wo_jpa:
  "journal_process_action L env a st = Some (env1, st1) \<Longrightarrow> writes_ok L st \<Longrightarrow> writes_ok L st1"
  by (auto simp: journal_process_action_def wo_report wo_called write_ok_def Let_def
           split: BGENV_TASK.splits option.splits if_splits prod.splits)

lemma wo_apply:
  "apply_in_order L env q st = Some (env1, st1) \<Longrightarrow> writes_ok L st \<Longrightarrow> writes_ok L st1"
proof (induction q arbitrary: env st)
  case Nil
  then show ?case by simp
next
  case (Cons a q)
  then show ?case by (auto split: option.splits dest: wo_jpa)
qed

lemma wo_loop:
  "journal_loop L env st = Some (env1, st1) \<Longrightarrow> writes_ok L st \<Longrightarrow> writes_ok L st1"
  by (auto simp: journal_loop_in_order [of st "head st"] wo_head dest: wo_apply)

lemma update_environment_crc:
  "update_environment L env st = Some (env1, st1) \<Longrightarrow>
   (\<exists>d. data env1 = Some d \<and> crc_ok L d) \<and> (writes_ok L st \<longrightarrow> writes_ok L st1)"
  by (auto simp: update_environment_def crc_ok_def BG_ENVDATA_fields.truncate_def
           split: option.splits dest: wo_loop)

lemma wo_dump:
  "dump_envs_from M L i st = Some st1 \<Longrightarrow> writes_ok L st \<Longrightarrow> writes_ok L st1"
proof (induction M L i st rule: dump_envs_from.induct)
  case (1 M L i st)
  show ?case
  proof (cases "i < ENV_NUM_CONFIG_PARTS M")
    case False
    then show ?thesis using "1.prems" by (simp add: dump_envs_from.simps [of M L i st])
  next
    case True
    show ?thesis
    proof (cases "bgenv_open_by_index L (calls st) i")
      case None
      then show ?thesis
        using "1.prems" True
        by (auto simp: dump_envs_from.simps [of M L i st] wo_report wo_called write_ok_def)
    next
      case (Some env)
      show ?thesis
      proof (cases "data env")
        case None
        then show ?thesis
          using "1.prems" True Some by (simp add: dump_envs_from.simps [of M L i st])
      next
        case (Some d)
        have "dump_envs_from M L (i + 1)
                (called (Call_bgenv_close (Some env)) (called (Call_bgenv_open_by_index i) st)) = Some st1"
          using "1.prems"(1) True \<open>bgenv_open_by_index L (calls st) i = Some env\<close> Some
          by (simp add: dump_envs_from.simps [of M L i st])
        moreover have "writes_ok L (called (Call_bgenv_close (Some env)) (called (Call_bgenv_open_by_index i) st))"
          using "1.prems"(2) by (simp add: wo_called write_ok_def)
        ultimately show ?thesis
          using "1.IH" [OF True refl \<open>bgenv_open_by_index L (calls st) i = Some env\<close> Some] by blast
      qed
    qed
  qed
qed


lemma wo_store:
  "store_environment L env st = Some (r, st1) \<Longrightarrow> writes_ok L st \<Longrightarrow> writes_ok L st1"
  by (auto simp: store_environment_def cleanup_def Let_def wo_called wo_report write_ok_def
           split: option.splits dest!: update_environment_crc)

lemma wo_get_env: "get_env L path st = (r, st1) \<Longrightarrow> writes_ok L st \<Longrightarrow> writes_ok L st1"
  by (auto simp: get_env_def Let_def wo_called write_ok_def split: if_splits)

lemma wo_file:
  "dumpenv_to_file L path v p st = Some (r, st1) \<Longrightarrow> writes_ok L st \<Longrightarrow> writes_ok L st1"
  by (auto simp: dumpenv_to_file_def Let_def wo_called wo_report write_ok_def
           split: option.splits if_splits prod.splits
           dest!: update_environment_crc wo_get_env)

lemma wo_slots:
  "update_slots M L a st = Some (r, st1) \<Longrightarrow> writes_ok L st \<Longrightarrow> writes_ok L st1"
  by (auto simp: update_slots_def dump_envs_def cleanup_def Let_def wo_called wo_report write_ok_def
           split: option.splits if_splits prod.splits
           dest!: wo_store wo_dump)

text \<open>
  Claim C2.  When \<open>update_environment\<close> returns, the field \<open>crc32\<close> of the record is
  \<open>crc32(0, ...)\<close> over the bytes of the record before that field, bytes that do not depend
  on the checksum the record held before.  In every run of \<open>bg_setenv\<close>, in the slots as
  in file mode, every record handed to \<open>bgenv_write\<close> or \<open>fwrite\<close> carries that checksum.
\<close>

theorem crc_recomputed:
  "(update_environment L env st = Some (env1, st1) \<longrightarrow>
      (\<exists>d. data env1 = Some d \<and>
           crc32 d = zlib_crc32 L 0 (layout L (BG_ENVDATA_fields.truncate d)))) \<and>
   layout L (BG_ENVDATA_fields.truncate (d0\<lparr>crc32 := c\<rparr>)) =
     layout L (BG_ENVDATA_fields.truncate d0) \<and>
   (bg_setenv M L argc opts st = Some (r, st') \<and> writes_ok L st \<longrightarrow> writes_ok L st')"
proof -
  have A: "update_environment L env st = Some (env1, st1) \<longrightarrow>
      (\<exists>d. data env1 = Some d \<and>
           crc32 d = zlib_crc32 L 0 (layout L (BG_ENVDATA_fields.truncate d)))"
    using update_environment_crc [of L env st env1 st1] by (auto simp: crc_ok_def)
  have B: "layout L (BG_ENVDATA_fields.truncate (d0\<lparr>crc32 := c\<rparr>)) =
     layout L (BG_ENVDATA_fields.truncate d0)"
    by (simp add: BG_ENVDATA_fields.truncate_def)
  have C: "writes_ok L st'" if run: "bg_setenv M L argc opts st = Some (r, st')" and w: "writes_ok L st"
  proof (cases "argc < 2")
    case True
    then show ?thesis using run w by (simp add: bg_setenv_def)
  next
    case False
    let ?p = "argp_parse (parse_setenv_opt M L) opts zero_arguments (st\<lparr>head := []\<rparr>)"
    have pc: "res_parse_calls (st\<lparr>head := []\<rparr>) ?p"
      by (rule argp_parse_calls) (rule rpc_setenv)
    have w0: "writes_ok L (st\<lparr>head := []\<rparr>)" using w by (simp add: wo_head)
    show ?thesis
    proof (cases ?p)
      case Crash
      then show ?thesis using run False by (simp add: bg_setenv_def)
    next
      case (Exit code x)
      then have "only_parse_calls (st\<lparr>head := []\<rparr>) (snd x)"
        using pc by (simp add: res_parse_calls_def)
      then have "writes_ok L (snd x)" using w0 by (rule wo_parse)
      then show ?thesis using run False Exit by (auto simp: bg_setenv_def split: prod.splits)
    next
      case (Return e x)
      obtain a s1 where x: "x = (a, s1)" by (cases x)
      have "only_parse_calls (st\<lparr>head := []\<rparr>) s1"
        using pc Return x by (simp add: res_parse_calls_def)
      then have w1: "writes_ok L s1" using w0 by (rule wo_parse)
      show ?thesis
        using run False Return x w1
        by (auto simp: bg_setenv_def wo_report split: if_splits option.splits
                 dest: wo_file wo_slots)
    qed
  qed
  show ?thesis using A B C by blast
qed

theorem crc_recomputed_witness:
  "(\<exists>S. bg_setenv sample_macros (sample_lib None None) 5
           [(opt CHR ''f'', ''env.dat''), (opt CHR ''r'', ''7'')] start = Some (Returned 0, S) \<and>
        writes_ok (sample_lib None None) S \<and>
        calls S = [Call_stat ''env.dat'', Call_bgenv_set \<lparr>desc = 0, data = Some zero_BG_ENVDATA\<rparr>
                     (Some ''revision'') 0 (cbuf ''7'') 2,
                   Call_fopen ''env.dat'',
                   Call_fwrite (zero_BG_ENVDATA\<lparr>revision := 7, crc32 := 7\<rparr>), Call_fclose]) \<and>
   (\<exists>S. bg_setenv sample_macros (sample_lib (Some (slot 1 5)) (Some (slot 0 2))) 3
           [(opt CHR ''u'', [])] start = Some (Returned 0, S) \<and>
        writes_ok (sample_lib (Some (slot 1 5)) (Some (slot 0 2))) S \<and>
        Call_bgenv_write \<lparr>desc = 0, data = Some (zero_BG_ENVDATA\<lparr>revision := 6, crc32 := 6\<rparr>)\<rparr>
          \<in> set (calls S))"
proof -
  let ?L1 = "sample_lib None None" and ?L2 = "sample_lib (Some (slot 1 5)) (Some (slot 0 2))"
  let ?S1 = "start\<lparr>calls := [Call_stat ''env.dat'', Call_bgenv_set \<lparr>desc = 0, data = Some zero_BG_ENVDATA\<rparr>
                     (Some ''revision'') 0 (cbuf ''7'') 2,
                   Call_fopen ''env.dat'',
                   Call_fwrite (zero_BG_ENVDATA\<lparr>revision := 7, crc32 := 7\<rparr>), Call_fclose]\<rparr>"
  let ?S2 = "start\<lparr>calls := [Call_bgenv_init, Call_bgenv_open_latest, Call_bgenv_open_oldest,
                   Call_bgenv_close (Some (slot 1 5)),
                   Call_bgenv_write \<lparr>desc = 0, data = Some (zero_BG_ENVDATA\<lparr>revision := 6, crc32 := 6\<rparr>)\<rparr>,
                   Call_bgenv_close (Some \<lparr>desc = 0, data = Some (zero_BG_ENVDATA\<lparr>revision := 6, crc32 := 6\<rparr>)\<rparr>),
                   Call_bgenv_finalize]\<rparr>"
  have r1: "bg_setenv sample_macros ?L1 5 [(opt CHR ''f'', ''env.dat''), (opt CHR ''r'', ''7'')] start =
              Some (Returned 0, ?S1)"
    by code_simp
  have r2: "bg_setenv sample_macros ?L2 3 [(opt CHR ''u'', [])] start = Some (Returned 0, ?S2)"
    by code_simp
  have w: "writes_ok ?L1 start" "writes_ok ?L2 start"
    by (simp_all add: writes_ok_def start_def)
  have 1: "writes_ok ?L1 ?S1"
    using crc_recomputed [where L = ?L1 and M = sample_macros and argc = 5 and st = start
            and opts = "[(opt CHR ''f'', ''env.dat''), (opt CHR ''r'', ''7'')]"
            and r = "Returned 0" and st' = ?S1, THEN conjunct2, THEN conjunct2] r1 w(1)
    by blast
  have 2: "writes_ok ?L2 ?S2"
    using crc_recomputed [where L = ?L2 and M = sample_macros and argc = 3 and st = start
            and opts = "[(opt CHR ''u'', [])]"
            and r = "Returned 0" and st' = ?S2, THEN conjunct2, THEN conjunct2] r2 w(2)
    by blast
  have c1: "calls ?S1 = [Call_stat ''env.dat'', Call_bgenv_set \<lparr>desc = 0, data = Some zero_BG_ENVDATA\<rparr>
                     (Some ''revision'') 0 (cbuf ''7'') 2,
                   Call_fopen ''env.dat'',
                   Call_fwrite (zero_BG_ENVDATA\<lparr>revision := 7, crc32 := 7\<rparr>), Call_fclose]"
    by simp
  have c2: "Call_bgenv_write \<lparr>desc = 0, data = Some (zero_BG_ENVDATA\<lparr>revision := 6, crc32 := 6\<rparr>)\<rparr>
          \<in> set (calls ?S2)"
    by simp
  show ?thesis using r1 r2 1 2 c1 c2 by blast
qed

section \<open>The automatic update\<close>

lemma word32_succ:
  fixes x :: "32 word"
  assumes "x \<noteq> 4294967295"
  shows "unat (x + 1) = unat x + 1"
proof -
  have "unat x < 2 ^ 32" using unsigned_less [of x] by simp
  moreover have "unat x \<noteq> 4294967295"
  proof
    assume "unat x = 4294967295"
    then have "x = of_nat 4294967295" by (metis of_nat_unat ucast_id)
    then show False using assms by simp
  qed
  ultimately have "unat x + 1 < 2 ^ 32" by simp
  then show ?thesis by (simp add: unat_word_ariths)
qed

lemma untouched_Cons: "untouched L (a # q) f \<Longrightarrow> untouched L q f"
  unfolding untouched_def by (meson list.set_intros(2))

lemma untouched_hd:
  "untouched L (a # q) f \<Longrightarrow> journal_process_action L env a st = Some (env', st') \<Longrightarrow>
   map_option f (data env') = map_option f (data env)"
  unfolding untouched_def by (meson list.set_intros(1))

lemma untouched_apply:
  "untouched L q f \<Longrightarrow> apply_in_order L env q st = Some (env', st') \<Longrightarrow>
   map_option f (data env') = map_option f (data env)"
proof (induction q arbitrary: env st)
  case Nil
  then show ?case by simp
next
  case (Cons a q)
  from Cons.prems(2) obtain e1 s1 where
    1: "journal_process_action L env a st = Some (e1, s1)" and
    2: "apply_in_order L e1 q s1 = Some (env', st')"
    by (auto split: option.splits)
  have "map_option f (data e1) = map_option f (data env)"
    using Cons.prems(1) 1 by (rule untouched_hd)
  moreover have "map_option f (data env') = map_option f (data e1)"
    using untouched_Cons [OF Cons.prems(1)] 2 by (rule Cons.IH)
  ultimately show ?case by simp
qed

lemma untouched_loop:
  "untouched L (head st) f \<Longrightarrow> journal_loop L env st = Some (env', st') \<Longrightarrow>
   map_option f (data env') = map_option f (data env)"
  by (auto simp: journal_loop_in_order [of st "head st"] dest: untouched_apply)

lemma update_environment_frame:
  assumes "untouched L (head st) f" and "\<And>d c. f (d\<lparr>crc32 := c\<rparr>) = f d"
      and "update_environment L env st = Some (env', st')"
  shows "map_option f (data env') = map_option f (data env)"
proof -
  from assms(3) obtain e1 d where
    1: "journal_loop L env st = Some (e1, st')" and d: "data e1 = Some d" and
    e: "env' = e1\<lparr>data := Some (d\<lparr>crc32 := zlib_crc32 L 0 (layout L (BG_ENVDATA_fields.truncate d))\<rparr>)\<rparr>"
    by (auto simp: update_environment_def split: option.splits)
  have "map_option f (data e1) = map_option f (data env)"
    using assms(1) 1 by (rule untouched_loop)
  then show ?thesis using d e assms(2) by simp
qed

lemma head_dump: "dump_envs_from M L i st = Some st1 \<Longrightarrow> head st1 = head st"
proof (induction M L i st rule: dump_envs_from.induct)
  case (1 M L i st)
  show ?case
  proof (cases "i < ENV_NUM_CONFIG_PARTS M")
    case False
    then show ?thesis using "1.prems" by (simp add: dump_envs_from.simps [of M L i st])
  next
    case True
    show ?thesis
    proof (cases "bgenv_open_by_index L (calls st) i")
      case None
      then show ?thesis
        using "1.prems" True
        by (auto simp: dump_envs_from.simps [of M L i st] report_def called_def)
    next
      case (Some env)
      show ?thesis
      proof (cases "data env")
        case None
        then show ?thesis
          using "1.prems" True Some by (simp add: dump_envs_from.simps [of M L i st])
      next
        case (Some d)
        have "dump_envs_from M L (i + 1)
                (called (Call_bgenv_close (Some env)) (called (Call_bgenv_open_by_index i) st)) = Some st1"
          using "1.prems"(1) True \<open>bgenv_open_by_index L (calls st) i = Some env\<close> Some
          by (simp add: dump_envs_from.simps [of M L i st])
        then have "head st1 = head (called (Call_bgenv_close (Some env)) (called (Call_bgenv_open_by_index i) st))"
          using "1.IH" [OF True refl \<open>bgenv_open_by_index L (calls st) i = Some env\<close> Some] by blast
        then show ?thesis by (simp add: called_def)
      qed
    qed
  qed
qed

lemma untouched_kernelfile:
  "untouched (sample_lib lo ol) [set_action ''kernelfile'' v] watchdog_timeout_sec"
  "untouched (sample_lib lo ol) [set_action ''kernelfile'' v] revision"
  by (auto simp: untouched_def set_action_def journal_process_action_def sample_bgenv_set
        spec_bgenv_set_def Let_def ustate_cmp NUL_def split: option.splits if_splits)

text \<open>
  Claim C1, as amended.  In a run of \<open>bg_setenv\<close> with \<open>-u\<close> on the slots (no file, no
  partition given) in which \<open>bgenv_open_latest\<close> and \<open>bgenv_open_oldest\<close> both return a
  handle with a record, the record of the target handle becomes the record \<open>dc\<close> of the
  latest handle with the revision \<open>revision dc + 1\<close> and nothing else changed.  The
  revision has 32 bits: it is exactly the successor when the latest revision is below
  4294967295, and 0 when it is 4294967295.  \<open>update_environment\<close> replays on that
  record the journal that the options built, and its result is what \<open>bgenv_write\<close>
  receives.  Every projection \<open>f\<close> of the record that no action of the journal changes,
  and that does not read the checksum (recomputed on every write), has in the written
  record the value it has in the clone: for a field other than the revision, the value
  of the latest record.
\<close>

theorem auto_update_clones_latest:
  assumes "2 \<le> argc"
      and "argp_parse (parse_setenv_opt M L) opts zero_arguments (st\<lparr>head := []\<rparr>) = Return 0 (a, st1)"
      and "auto_update a" and "\<not> part_specified (common a)" and "envfilepath (common a) = None"
      and "bgenv_init L (calls st1)"
      and "(if verbosity (common a) then dump_envs M L (called Call_bgenv_init st1)
            else Some (called Call_bgenv_init st1)) = Some st2"
      and "bgenv_open_latest L (calls st2) = Some env_current" and "data env_current = Some dc"
      and "bgenv_open_oldest L (calls (called Call_bgenv_open_latest st2)) = Some env_new"
      and "data env_new = Some dn"
      and "st3 = called (Call_bgenv_close (Some env_current))
                   (called Call_bgenv_open_oldest (called Call_bgenv_open_latest st2))"
  shows "bg_setenv M L argc opts st =
           (case update_environment L (env_new\<lparr>data := Some (dc\<lparr>revision := revision dc + 1\<rparr>)\<rparr>) st3 of
              None \<Rightarrow> None
            | Some (env1, st4) \<Rightarrow>
                Some (Returned (if bgenv_write L (calls st4) env1 then 0 else 1),
                      cleanup (Some env1)
                        (if bgenv_write L (calls st4) env1 then called (Call_bgenv_write env1) st4
                         else report Error_storing_environment (called (Call_bgenv_write env1) st4)))) \<and>
         (dc\<lparr>revision := revision dc + 1\<rparr>)\<lparr>revision := revision dc\<rparr> = dc \<and>
         unat (revision (dc\<lparr>revision := revision dc + 1\<rparr>)) = (unat (revision dc) + 1) mod 2 ^ 32 \<and>
         (revision dc \<noteq> 4294967295 \<longrightarrow>
            unat (revision (dc\<lparr>revision := revision dc + 1\<rparr>)) = unat (revision dc) + 1) \<and>
         (revision dc = 4294967295 \<longrightarrow> revision (dc\<lparr>revision := revision dc + 1\<rparr>) = 0) \<and>
         head st3 = head st1 \<and>
         (untouched L (head st1) f \<and> (\<forall>d c. f (d\<lparr>crc32 := c\<rparr>) = f d) \<and>
          update_environment L (env_new\<lparr>data := Some (dc\<lparr>revision := revision dc + 1\<rparr>)\<rparr>) st3 =
            Some (env1, st4) \<longrightarrow>
            map_option f (data env1) = Some (f (dc\<lparr>revision := revision dc + 1\<rparr>)))"
proof -
  let ?B = "env_new\<lparr>data := Some (dc\<lparr>revision := revision dc + 1\<rparr>)\<rparr>"
  have h: "head st2 = head st1"
    using assms(7) by (auto simp: dump_envs_def called_def split: if_splits dest: head_dump)
  then have h3: "head st3 = head st1" by (simp add: assms(12) called_def)
  have slots: "update_slots M L a st1 = store_environment L ?B st3"
    using assms(3,6,7,8,9,10,11)
    by (simp add: update_slots_def Let_def assms(12))
  have run: "bg_setenv M L argc opts st =
           (case update_environment L ?B st3 of
              None \<Rightarrow> None
            | Some (env1, st4) \<Rightarrow>
                Some (Returned (if bgenv_write L (calls st4) env1 then 0 else 1),
                      cleanup (Some env1)
                        (if bgenv_write L (calls st4) env1 then called (Call_bgenv_write env1) st4
                         else report Error_storing_environment (called (Call_bgenv_write env1) st4))))"
    using assms(1,2,4,5)
    by (simp add: bg_setenv_def slots store_environment_def Let_def split: option.splits)
  have rev: "unat (revision (dc\<lparr>revision := revision dc + 1\<rparr>)) = (unat (revision dc) + 1) mod 2 ^ 32"
    by (simp add: unat_word_ariths)
  have succ: "unat (revision (dc\<lparr>revision := revision dc + 1\<rparr>)) = unat (revision dc) + 1"
    if "revision dc \<noteq> 4294967295"
    using word32_succ [OF that] by simp
  have wrap: "revision (dc\<lparr>revision := revision dc + 1\<rparr>) = 0" if "revision dc = 4294967295"
    using that by simp
  have frame: "map_option f (data env1) = Some (f (dc\<lparr>revision := revision dc + 1\<rparr>))"
    if "untouched L (head st1) f" "\<forall>d c. f (d\<lparr>crc32 := c\<rparr>) = f d"
       "update_environment L ?B st3 = Some (env1, st4)"
    using update_environment_frame [of L st3 f ?B env1 st4] that h3 by simp
  show ?thesis using run rev succ wrap h3 frame by simp
qed

theorem auto_update_clones_latest_witness:
  "\<exists>env1 st4.
     update_environment (sample_lib (Some (slot_wd 1 5 20)) (Some (slot_wd 0 2 99)))
       ((slot_wd 0 2 99)\<lparr>data := Some (zero_BG_ENVDATA\<lparr>watchdog_timeout_sec := 20, revision := 5 + 1\<rparr>)\<rparr>)
       (start\<lparr>head := [set_action ''kernelfile'' ''vmlinuz''],
              calls := [Call_bgenv_init, Call_bgenv_open_latest, Call_bgenv_open_oldest,
                        Call_bgenv_close (Some (slot_wd 1 5 20))]\<rparr>) = Some (env1, st4) \<and>
     map_option watchdog_timeout_sec (data env1) = Some 20 \<and>
     map_option revision (data env1) = Some 6 \<and>
     map_option kernelfile (data env1) = Some (str8to16 (cbuf ''vmlinuz'')) \<and>
     bg_setenv sample_macros (sample_lib (Some (slot_wd 1 5 20)) (Some (slot_wd 0 2 99))) 4
       [(opt CHR ''u'', []), (opt CHR ''k'', ''vmlinuz'')] start =
       Some (Returned 0, cleanup (Some env1) (called (Call_bgenv_write env1) st4))"
proof -
  let ?L = "sample_lib (Some (slot_wd 1 5 20)) (Some (slot_wd 0 2 99))"
  let ?opts = "[(opt CHR ''u'', []), (opt CHR ''k'', ''vmlinuz'')]"
  let ?a = "zero_arguments\<lparr>auto_update := True\<rparr>"
  let ?dc = "zero_BG_ENVDATA\<lparr>watchdog_timeout_sec := 20, revision := 5\<rparr>"
  let ?dn = "zero_BG_ENVDATA\<lparr>watchdog_timeout_sec := 99, revision := 2\<rparr>"
  let ?st1 = "start\<lparr>head := [set_action ''kernelfile'' ''vmlinuz'']\<rparr>"
  let ?st2 = "called Call_bgenv_init ?st1"
  let ?st3 = "start\<lparr>head := [set_action ''kernelfile'' ''vmlinuz''],
              calls := [Call_bgenv_init, Call_bgenv_open_latest, Call_bgenv_open_oldest,
                        Call_bgenv_close (Some (slot_wd 1 5 20))]\<rparr>"
  let ?B = "(slot_wd 0 2 99)\<lparr>data := Some (?dc\<lparr>revision := revision ?dc + 1\<rparr>)\<rparr>"
  let ?d1 = "zero_BG_ENVDATA\<lparr>kernelfile := str8to16 (cbuf ''vmlinuz''), watchdog_timeout_sec := 20,
               revision := 6, crc32 := 6\<rparr>"
  let ?env1 = "\<lparr>desc = 0, data = Some ?d1\<rparr>"
  let ?st4 = "start\<lparr>calls := [Call_bgenv_init, Call_bgenv_open_latest, Call_bgenv_open_oldest,
                        Call_bgenv_close (Some (slot_wd 1 5 20)),
                        Call_bgenv_set (slot_wd 0 6 20) (Some ''kernelfile'') 0 (cbuf ''vmlinuz'') 8]\<rparr>"
  have h1: "(2::int) \<le> 4" by simp
  have h2: "argp_parse (parse_setenv_opt sample_macros ?L) ?opts zero_arguments (start\<lparr>head := []\<rparr>) =
              Return 0 (?a, ?st1)"
    by code_simp
  have h3: "auto_update ?a" by (simp add: zero_arguments_def)
  have h4: "\<not> part_specified (common ?a)" by (simp add: zero_arguments_def)
  have h5: "envfilepath (common ?a) = None" by (simp add: zero_arguments_def)
  have h6: "bgenv_init ?L (calls ?st1)" by (simp add: sample_lib_def)
  have h7: "(if verbosity (common ?a) then dump_envs sample_macros ?L (called Call_bgenv_init ?st1)
             else Some (called Call_bgenv_init ?st1)) = Some ?st2"
    by (simp add: zero_arguments_def)
  have h8: "bgenv_open_latest ?L (calls ?st2) = Some (slot_wd 1 5 20)" by (simp add: sample_lib_def)
  have h9: "data (slot_wd 1 5 20) = Some ?dc" by (simp add: slot_wd_def)
  have h10: "bgenv_open_oldest ?L (calls (called Call_bgenv_open_latest ?st2)) = Some (slot_wd 0 2 99)"
    by (simp add: sample_lib_def)
  have h11: "data (slot_wd 0 2 99) = Some ?dn" by (simp add: slot_wd_def)
  have h12: "?st3 = called (Call_bgenv_close (Some (slot_wd 1 5 20)))
                   (called Call_bgenv_open_oldest (called Call_bgenv_open_latest ?st2))"
    by (simp add: called_def start_def)
  have u: "update_environment ?L ?B ?st3 = Some (?env1, ?st4)"
    by code_simp
  note T = auto_update_clones_latest [OF h1 h2 h3 h4 h5 h6 h7 h8 h9 h10 h11 h12]
  have hd: "head ?st1 = [set_action ''kernelfile'' ''vmlinuz'']" by simp
  have "map_option watchdog_timeout_sec (data ?env1) =
          Some (watchdog_timeout_sec (?dc\<lparr>revision := revision ?dc + 1\<rparr>))"
    using T [where f = watchdog_timeout_sec and ?env1.0 = ?env1 and ?st4.0 = ?st4,
             THEN conjunct2, THEN conjunct2, THEN conjunct2, THEN conjunct2,
             THEN conjunct2, THEN conjunct2]
          untouched_kernelfile(1) [of "Some (slot_wd 1 5 20)" "Some (slot_wd 0 2 99)" "''vmlinuz''"] u
    unfolding hd by simp
  then have w: "map_option watchdog_timeout_sec (data ?env1) = Some 20"
    by simp
  have "map_option revision (data ?env1) = Some (revision (?dc\<lparr>revision := revision ?dc + 1\<rparr>))"
    using T [where f = revision and ?env1.0 = ?env1 and ?st4.0 = ?st4,
             THEN conjunct2, THEN conjunct2, THEN conjunct2, THEN conjunct2,
             THEN conjunct2, THEN conjunct2]
          untouched_kernelfile(2) [of "Some (slot_wd 1 5 20)" "Some (slot_wd 0 2 99)" "''vmlinuz''"] u
    unfolding hd by simp
  then have r: "map_option revision (data ?env1) = Some 6"
    by simp
  have k: "map_option kernelfile (data ?env1) = Some (str8to16 (cbuf ''vmlinuz''))"
    by simp
  have run: "bg_setenv sample_macros ?L 4 ?opts start =
       Some (Returned 0, cleanup (Some ?env1) (called (Call_bgenv_write ?env1) ?st4))"
    using T [where f = revision and ?env1.0 = ?env1 and ?st4.0 = ?st4, THEN conjunct1] u
    by (simp add: sample_lib_def)
  have u': "update_environment ?L
       ((slot_wd 0 2 99)\<lparr>data := Some (zero_BG_ENVDATA\<lparr>watchdog_timeout_sec := 20, revision := 5 + 1\<rparr>)\<rparr>)
       ?st3 = Some (?env1, ?st4)"
    using u by simp
  show ?thesis using u' w r k run by blast
qed

text \<open>
  Claim C1 as stated fails at the last revision: with the latest record at revision
  4294967295 (and a checksum that fits it), \<open>bg_setenv -u\<close> writes a record of revision
  0, which is not the successor and is below the revision of the latest record; its
  checksum, recomputed, differs from that of the latest record though no action
  touched it.
\<close>

theorem auto_update_revision_wraps:
  "bg_setenv sample_macros
     (sample_lib (Some \<lparr>desc = 1, data = Some (zero_BG_ENVDATA\<lparr>revision := 4294967295, crc32 := 255\<rparr>)\<rparr>)
                 (Some (slot 0 2))) 3
     [(opt CHR ''u'', [])] start =
   Some (Returned 0,
         start\<lparr>calls :=
           [Call_bgenv_init, Call_bgenv_open_latest, Call_bgenv_open_oldest,
            Call_bgenv_close
              (Some \<lparr>desc = 1, data = Some (zero_BG_ENVDATA\<lparr>revision := 4294967295, crc32 := 255\<rparr>)\<rparr>),
            Call_bgenv_write \<lparr>desc = 0, data = Some (zero_BG_ENVDATA\<lparr>revision := 0, crc32 := 0\<rparr>)\<rparr>,
            Call_bgenv_close (Some \<lparr>desc = 0, data = Some (zero_BG_ENVDATA\<lparr>revision := 0, crc32 := 0\<rparr>)\<rparr>),
            Call_bgenv_finalize]\<rparr>) \<and>
   unat (0 :: 32 word) \<noteq> unat (4294967295 :: 32 word) + 1 \<and>
   (0 :: 32 word) < 4294967295 \<and>
   crc32 (zero_BG_ENVDATA\<lparr>revision := 0, crc32 := 0\<rparr>) \<noteq>
     crc32 (zero_BG_ENVDATA\<lparr>revision := 4294967295, crc32 := 255\<rparr>)"
  proof -
  have run: "bg_setenv sample_macros
     (sample_lib (Some \<lparr>desc = 1, data = Some (zero_BG_ENVDATA\<lparr>revision := 4294967295, crc32 := 255\<rparr>)\<rparr>)
                 (Some (slot 0 2))) 3
     [(opt CHR ''u'', [])] start =
   Some (Returned 0,
         start\<lparr>calls :=
           [Call_bgenv_init, Call_bgenv_open_latest, Call_bgenv_open_oldest,
            Call_bgenv_close
              (Some \<lparr>desc = 1, data = Some (zero_BG_ENVDATA\<lparr>revision := 4294967295, crc32 := 255\<rparr>)\<rparr>),
            Call_bgenv_write \<lparr>desc = 0, data = Some (zero_BG_ENVDATA\<lparr>revision := 0, crc32 := 0\<rparr>)\<rparr>,
            Call_bgenv_close (Some \<lparr>desc = 0, data = Some (zero_BG_ENVDATA\<lparr>revision := 0, crc32 := 0\<rparr>)\<rparr>),
            Call_bgenv_finalize]\<rparr>)"
    by code_simp
  have w: "unat (0 :: 32 word) \<noteq> unat (4294967295 :: 32 word) + 1" "(0 :: 32 word) < 4294967295"
    by simp_all
  have c: "crc32 (zero_BG_ENVDATA\<lparr>revision := 0, crc32 := 0\<rparr>) \<noteq>
     crc32 (zero_BG_ENVDATA\<lparr>revision := 4294967295, crc32 := 255\<rparr>)"
    by simp
  show ?thesis using run w c by blast
qed

end
